theory Spec2Isabelle
  imports Complex_Main "HOL-Library.Word" "HOL-Library.Log_Nat"
begin

section \<open>Python values, errors and text\<close>

text \<open>
  The development embeds \<^verbatim>\<open>py_scripts/ML/predict_DPI.py\<close>: the schema compiler
  \<^verbatim>\<open>load_protocol_definitions\<close>, the packet decoder \<^verbatim>\<open>parse_pcap_with_ip\<close>, the
  aggregates of \<^verbatim>\<open>extract_aggregated_features\<close> that the synthesizer reads, the
  segmentation \<^verbatim>\<open>segment_stats\<close> and the synthesizer \<^verbatim>\<open>generate_dpi\<close>.

  Exceptions are values: a function that can raise returns \<open>py_error + 'a\<close>.
  Schema text (names, type tokens) is a \<open>string\<close>; text decoded from a payload is a
  list of Unicode code points (\<open>ustr\<close>), since UTF-8 decoding produces code points
  beyond one byte. A payload is a list of bytes.
\<close>

datatype py_error =
  ValueError | IndexError | KeyError | TypeError | ZeroDivisionError | StructError | OverflowError

type_synonym byte = "8 word"
type_synonym ustr = "int list"

definition ustr_of :: "string \<Rightarrow> ustr" where
  "ustr_of s = map of_char s"

subsection \<open>Double-precision numbers\<close>

text \<open>
  A Python float is an IEEE binary64 number. Every finite double is a rational, so a
  double is modelled exactly as a rational or one of the three special values; the two
  signed zeros are identified (nothing below distinguishes them but the printed sign).
  \<open>to_dbl\<close> rounds a rational to the nearest double, ties to even, with gradual
  underflow and overflow to infinity: the rounding of every arithmetic operation.
\<close>

datatype dbl = Fin rat | PInf | NInf | NaN

definition pow2 :: "int \<Rightarrow> rat" where
  "pow2 k = (if 0 \<le> k then of_int (2 ^ nat k) else 1 / of_int (2 ^ nat (- k)))"

definition ilog2 :: "rat \<Rightarrow> int" where
  \<comment> \<open>\<open>\<lfloor>log\<^sub>2 x\<rfloor>\<close> for \<open>x > 0\<close>\<close>
  "ilog2 x = (if 1 \<le> x then bitlen \<lfloor>x\<rfloor> - 1 else - bitlen (\<lceil>1 / x\<rceil> - 1))"

definition round_even :: "rat \<Rightarrow> int" where
  "round_even x =
     (let f = \<lfloor>x\<rfloor>; d = x - of_int f
      in if d < 1 / 2 then f else if 1 / 2 < d then f + 1 else if even f then f else f + 1)"

definition to_dbl :: "rat \<Rightarrow> dbl" where
  \<comment> \<open>\<open>e\<close> is the exponent of \<open>x\<close>, at least that of the subnormal numbers; \<open>k\<close> is the
     significand of 53 bits, rounded; a rounded value of \<open>2\<^sup>1\<^sup>0\<^sup>2\<^sup>4\<close> or more overflows\<close>
  "to_dbl x =
     (if x = 0 then Fin 0
      else let e = max (ilog2 \<bar>x\<bar>) (- 1022);
               k = round_even (x / pow2 (e - 52))
           in if 1023 < e \<or> (e = 1023 \<and> 9007199254740992 \<le> \<bar>k\<bar>)
              then (if x < 0 then NInf else PInf)
              else Fin (of_int k * pow2 (e - 52)))"

definition is_nan :: "dbl \<Rightarrow> bool" where
  "is_nan d = (d = NaN)"

fun dneg :: "dbl \<Rightarrow> dbl" where
  "dneg (Fin r) = Fin (- r)"
| "dneg PInf = NInf"
| "dneg NInf = PInf"
| "dneg NaN = NaN"

fun dadd :: "dbl \<Rightarrow> dbl \<Rightarrow> dbl" where
  "dadd NaN _ = NaN"
| "dadd _ NaN = NaN"
| "dadd PInf NInf = NaN"
| "dadd NInf PInf = NaN"
| "dadd PInf _ = PInf"
| "dadd _ PInf = PInf"
| "dadd NInf _ = NInf"
| "dadd _ NInf = NInf"
| "dadd (Fin a) (Fin b) = to_dbl (a + b)"

definition dsub :: "dbl \<Rightarrow> dbl \<Rightarrow> dbl" where
  "dsub a b = dadd a (dneg b)"

fun dsgn :: "dbl \<Rightarrow> int" where
  "dsgn (Fin r) = sgn \<lfloor>r\<rfloor> + (if r \<noteq> 0 \<and> \<lfloor>r\<rfloor> = 0 then 1 else 0)"
| "dsgn PInf = 1"
| "dsgn NInf = - 1"
| "dsgn NaN = 0"

fun dmul :: "dbl \<Rightarrow> dbl \<Rightarrow> dbl" where
  "dmul NaN _ = NaN"
| "dmul _ NaN = NaN"
| "dmul (Fin a) (Fin b) = to_dbl (a * b)"
| "dmul a b = (if dsgn a * dsgn b = 0 then NaN else if 0 < dsgn a * dsgn b then PInf else NInf)"

fun fdiv :: "dbl \<Rightarrow> dbl \<Rightarrow> dbl" where
  \<comment> \<open>IEEE division\<close>
  "fdiv NaN _ = NaN"
| "fdiv _ NaN = NaN"
| "fdiv (Fin a) (Fin b) =
     (if b = 0 then (if a = 0 then NaN else if 0 < a then PInf else NInf) else to_dbl (a / b))"
| "fdiv (Fin a) _ = Fin 0"
| "fdiv a (Fin b) = (if 0 \<le> b then a else dneg a)"
| "fdiv _ _ = NaN"

definition ddiv :: "dbl \<Rightarrow> dbl \<Rightarrow> py_error + dbl" where
  \<comment> \<open>Python's \<^verbatim>\<open>/\<close> on floats: a zero divisor raises\<close>
  "ddiv a b = (if b = Fin 0 then Inl ZeroDivisionError else Inr (fdiv a b))"

fun dlt :: "dbl \<Rightarrow> dbl \<Rightarrow> bool" where
  \<comment> \<open>\<^verbatim>\<open><\<close> on floats: false as soon as one side is not-a-number\<close>
  "dlt NaN _ = False"
| "dlt _ NaN = False"
| "dlt (Fin a) (Fin b) = (a < b)"
| "dlt NInf NInf = False"
| "dlt NInf _ = True"
| "dlt _ NInf = False"
| "dlt PInf _ = False"
| "dlt _ PInf = True"

definition deq0 :: "dbl \<Rightarrow> bool" where
  "deq0 d = (d = Fin 0)"

definition deq :: "dbl \<Rightarrow> dbl \<Rightarrow> bool" where
  \<comment> \<open>\<^verbatim>\<open>==\<close> on floats: not-a-number equals nothing\<close>
  "deq a b = (a \<noteq> NaN \<and> a = b)"

definition dfloor :: "dbl \<Rightarrow> dbl" where
  "dfloor d = (case d of Fin r \<Rightarrow> Fin (of_int \<lfloor>r\<rfloor>) | _ \<Rightarrow> d)"

definition nan_to :: "dbl \<Rightarrow> dbl \<Rightarrow> dbl" where
  \<comment> \<open>\<^verbatim>\<open>if np.isnan(x): x = fallback\<close>\<close>
  "nan_to d fallback = (if is_nan d then fallback else d)"

definition trunc_rat :: "rat \<Rightarrow> int" where
  "trunc_rat r = (if 0 \<le> r then \<lfloor>r\<rfloor> else \<lceil>r\<rceil>)"

definition py_floordiv :: "dbl \<Rightarrow> dbl \<Rightarrow> py_error + dbl" where
  \<comment> \<open>\<^verbatim>\<open>v // w\<close> on floats, as the interpreter computes it: the exact \<^verbatim>\<open>fmod\<close>, the
     quotient of the difference, one less when the remainder has the other sign, then
     snapped to the nearest integer below\<close>
  "py_floordiv v w =
     (if w = Fin 0 then Inl ZeroDivisionError
      else Inr (case (v, w) of
                  (Fin x, Fin y) \<Rightarrow>
                    (let m = x - y * of_int (trunc_rat (x / y));
                         d0 = fdiv (dsub (Fin x) (Fin m)) (Fin y);
                         d = (if m \<noteq> 0 \<and> ((y < 0) \<noteq> (m < 0)) then dsub d0 (Fin 1) else d0)
                     in if d = Fin 0 then Fin 0
                        else if dlt (Fin (1 / 2)) (dsub d (dfloor d)) then dadd (dfloor d) (Fin 1)
                        else dfloor d)
                | (Fin x, PInf) \<Rightarrow> (if x < 0 then Fin (- 1) else Fin 0)
                | (Fin x, NInf) \<Rightarrow> (if 0 < x then Fin (- 1) else Fin 0)
                | _ \<Rightarrow> NaN))"

definition py_round :: "dbl \<Rightarrow> py_error + int" where
  \<comment> \<open>\<^verbatim>\<open>round(x)\<close> with one argument: to the nearest integer, ties to even\<close>
  "py_round d = (case d of Fin r \<Rightarrow> Inr (round_even r) | NaN \<Rightarrow> Inl ValueError | _ \<Rightarrow> Inl OverflowError)"

definition round3 :: "dbl \<Rightarrow> dbl" where
  \<comment> \<open>\<^verbatim>\<open>round(x, 3)\<close>: the double nearest to the decimal with three places nearest to \<open>x\<close>\<close>
  "round3 d = (case d of Fin r \<Rightarrow> to_dbl (of_int (round_even (r * 1000)) / 1000) | _ \<Rightarrow> d)"

subsection \<open>Text\<close>

definition uni_space :: "int \<Rightarrow> bool" where
  \<comment> \<open>the code points for which \<^verbatim>\<open>str.isspace\<close> holds\<close>
  "uni_space c = (c \<in> set [9, 10, 11, 12, 13, 28, 29, 30, 31, 32, 133, 160, 5760, 8232, 8233,
      8239, 8287, 12288] \<or> (8192 \<le> c \<and> c \<le> 8202))"

definition strip_by :: "('a \<Rightarrow> bool) \<Rightarrow> 'a list \<Rightarrow> 'a list" where
  "strip_by P s = rev (dropWhile P (rev (dropWhile P s)))"

definition ascii_space :: "int \<Rightarrow> bool" where
  \<comment> \<open>the white space that \<^verbatim>\<open>int()\<close> and \<^verbatim>\<open>float()\<close> strip from both ends\<close>
  "ascii_space c = (c \<in> set [9, 10, 11, 12, 13, 32])"

definition nd_zeros :: "int list" where
  \<comment> \<open>the digit zero of each decimal digit system of Unicode 14 (the table of Python
     3.11); the nine code points after each are its digits one to nine\<close>
  "nd_zeros = [48, 1632, 1776, 1984, 2406, 2534, 2662, 2790, 2918, 3046, 3174, 3302, 3430, 3558,
     3664, 3792, 3872, 4160, 4240, 6112, 6160, 6470, 6608, 6784, 6800, 6992, 7088, 7232, 7248,
     42528, 43216, 43264, 43472, 43504, 43600, 44016, 65296, 66720, 68912, 69734, 69872, 69942,
     70096, 70384, 70736, 70864, 71248, 71360, 71472, 71904, 72016, 72784, 73040, 73120, 92768,
     92864, 93008, 120782, 120792, 120802, 120812, 120822, 123200, 123632, 125264, 130032]"

definition uni_decimal :: "int \<Rightarrow> int option" where
  \<comment> \<open>the value of a decimal digit of any script\<close>
  "uni_decimal c = map_option (\<lambda>z. c - z) (find (\<lambda>z. z \<le> c \<and> c \<le> z + 9) nd_zeros)"

fun to_ascii :: "ustr \<Rightarrow> ustr" where
  \<comment> \<open>what \<^verbatim>\<open>int()\<close> and \<^verbatim>\<open>float()\<close> do to text that is not ASCII before they parse
     it: a space of any script becomes a blank, a decimal digit of any script the ASCII
     digit of its value, and the text is cut at any other character beyond ASCII, which a
     question mark replaces\<close>
  "to_ascii [] = []"
| "to_ascii (c # cs) =
     (if c < 127 then c # to_ascii cs
      else if uni_space c then 32 # to_ascii cs
      else case uni_decimal c of Some d \<Rightarrow> (48 + d) # to_ascii cs | None \<Rightarrow> [63])"

definition num_text :: "ustr \<Rightarrow> ustr" where
  \<comment> \<open>the text that the number parsers read: stripped of white space at both ends\<close>
  "num_text s = strip_by ascii_space (if list_all (\<lambda>c. c < 128) s then s else to_ascii s)"

definition is_space_char :: "char \<Rightarrow> bool" where
  "is_space_char c = uni_space (of_char c)"

definition py_strip :: "string \<Rightarrow> string" where
  "py_strip s = strip_by is_space_char s"

fun py_split :: "string \<Rightarrow> string list" where
  \<comment> \<open>\<^verbatim>\<open>str.split()\<close>: the maximal runs of characters that are not white space\<close>
  "py_split [] = []"
| "py_split (c # cs) =
     (if is_space_char c then py_split cs
      else case py_split cs of
             [] \<Rightarrow> [[c]]
           | w # ws \<Rightarrow> (case cs of
                 [] \<Rightarrow> [[c]]
               | d # _ \<Rightarrow> if is_space_char d then [c] # w # ws else (c # w) # ws))"

definition lower_char :: "char \<Rightarrow> char" where
  "lower_char c =
     (let n = (of_char c :: int)
      in if (65 \<le> n \<and> n \<le> 90) \<or> (192 \<le> n \<and> n \<le> 222 \<and> n \<noteq> 215) then char_of (n + 32) else c)"

definition py_lower :: "string \<Rightarrow> string" where
  "py_lower s = map lower_char s"

definition startswith :: "string \<Rightarrow> string \<Rightarrow> bool" where
  "startswith s p = (take (length p) s = p)"

definition is_digit :: "int \<Rightarrow> bool" where
  "is_digit c = (48 \<le> c \<and> c \<le> 57)"

fun digits_from :: "ustr \<Rightarrow> int list \<times> ustr" where
  \<comment> \<open>the digits of a digit part (single underscores between digits allowed) and the rest\<close>
  "digits_from [] = ([], [])"
| "digits_from (c # cs) =
     (if is_digit c then (let (ds, r) = digits_from cs in ((c - 48) # ds, r))
      else if c = 95 \<and> (case cs of d # _ \<Rightarrow> is_digit d | [] \<Rightarrow> False) then digits_from cs
      else ([], c # cs))"

definition digitpart :: "ustr \<Rightarrow> (int list \<times> ustr) option" where
  "digitpart cs = (case cs of c # _ \<Rightarrow> if is_digit c then Some (digits_from cs) else None | [] \<Rightarrow> None)"

definition dec_val :: "int list \<Rightarrow> int" where
  "dec_val ds = foldl (\<lambda>a d. 10 * a + d) 0 ds"

definition split_sign :: "ustr \<Rightarrow> bool \<times> ustr" where
  \<comment> \<open>an optional sign: whether it is minus, and the rest\<close>
  "split_sign s = (case s of c # cs \<Rightarrow> if c = 45 then (True, cs) else if c = 43 then (False, cs) else (False, s)
                   | [] \<Rightarrow> (False, []))"

definition py_int_str :: "ustr \<Rightarrow> int option" where
  \<comment> \<open>\<^verbatim>\<open>int(s)\<close> on text; \<open>None\<close> is ValueError, which more than 4300 digits also
     raise (the interpreter's limit on the conversion of decimal text)\<close>
  "py_int_str s =
     (let (neg, t) = split_sign (num_text s)
      in case digitpart t of
           Some (ds, []) \<Rightarrow>
             if 4300 < length ds then None else Some (if neg then - dec_val ds else dec_val ds)
         | _ \<Rightarrow> None)"

definition ascii_lower :: "int \<Rightarrow> int" where
  "ascii_lower c = (if 65 \<le> c \<and> c \<le> 90 then c + 32 else c)"

definition dec_exponent :: "ustr \<Rightarrow> int option" where
  \<comment> \<open>the exponent part of a float literal, or nothing left\<close>
  "dec_exponent s =
     (case s of [] \<Rightarrow> Some 0
      | c # cs \<Rightarrow>
          if ascii_lower c = 101 then
            (let (neg, t) = split_sign cs
             in case digitpart t of
                  Some (ds, []) \<Rightarrow> Some (if neg then - dec_val ds else dec_val ds)
                | _ \<Rightarrow> None)
          else None)"

definition pow10 :: "int \<Rightarrow> rat" where
  "pow10 k = (if 0 \<le> k then 10 ^ nat k else 1 / 10 ^ nat (- k))"

definition dec_literal :: "ustr \<Rightarrow> rat option" where
  \<comment> \<open>digits, an optional point with digits, an optional exponent; at least one digit\<close>
  "dec_literal s =
     (let (ip, r1) = (case digitpart s of Some (ds, r) \<Rightarrow> (ds, r) | None \<Rightarrow> ([], s));
          (fp, r2) = (case r1 of
                        c # cs \<Rightarrow> if c = 46 then (case digitpart cs of Some (ds, r) \<Rightarrow> (ds, r) | None \<Rightarrow> ([], cs))
                                  else ([], r1)
                      | [] \<Rightarrow> ([], []))
      in if ip = [] \<and> fp = [] then None
         else case dec_exponent r2 of
                None \<Rightarrow> None
              | Some e \<Rightarrow> Some ((of_int (dec_val ip) + of_int (dec_val fp) / 10 ^ length fp) * pow10 e))"

definition py_float_str :: "ustr \<Rightarrow> dbl option" where
  \<comment> \<open>\<^verbatim>\<open>float(s)\<close> on text; \<open>None\<close> is ValueError\<close>
  "py_float_str s =
     (let (neg, t) = split_sign (num_text s); w = map ascii_lower t
      in if w = ustr_of ''inf'' \<or> w = ustr_of ''infinity'' then Some (if neg then NInf else PInf)
         else if w = ustr_of ''nan'' then Some NaN
         else case dec_literal t of
                None \<Rightarrow> None
              | Some r \<Rightarrow> Some (to_dbl (if neg then - r else r)))"

subsection \<open>Values\<close>

datatype scalar = VInt int | VFloat dbl | VStr ustr | VBool bool

datatype pyval = Sc scalar | Li "scalar list"

fun int_of_scalar :: "scalar \<Rightarrow> int option" where
  "int_of_scalar (VInt n) = Some n"
| "int_of_scalar (VBool b) = Some (if b then 1 else 0)"
| "int_of_scalar (VFloat d) = (case d of Fin r \<Rightarrow> Some (trunc_rat r) | _ \<Rightarrow> None)"
| "int_of_scalar (VStr s) = py_int_str s"

fun py_int :: "pyval \<Rightarrow> int option" where
  \<comment> \<open>\<^verbatim>\<open>int(v)\<close> under a bare \<^verbatim>\<open>except\<close>: \<open>None\<close> stands for every exception
     (ValueError on text, OverflowError or ValueError on an infinite or not-a-number
     float, TypeError on a list)\<close>
  "py_int (Sc v) = int_of_scalar v"
| "py_int (Li _) = None"

fun float_of_scalar :: "scalar \<Rightarrow> dbl option" where
  "float_of_scalar (VInt n) = (case to_dbl (of_int n) of Fin r \<Rightarrow> Some (Fin r) | _ \<Rightarrow> None)"
| "float_of_scalar (VBool b) = Some (Fin (if b then 1 else 0))"
| "float_of_scalar (VFloat d) = Some d"
| "float_of_scalar (VStr s) = py_float_str s"

fun py_float :: "pyval \<Rightarrow> dbl option" where
  \<comment> \<open>\<^verbatim>\<open>float(v)\<close> under a bare \<^verbatim>\<open>except\<close>\<close>
  "py_float (Sc v) = float_of_scalar v"
| "py_float (Li _) = None"

subsection \<open>Bytes\<close>

definition py_slice :: "'a list \<Rightarrow> int \<Rightarrow> int \<Rightarrow> 'a list" where
  \<comment> \<open>\<^verbatim>\<open>xs[a:b]\<close>: a negative bound counts from the end, and both are clamped\<close>
  "py_slice xs a b =
     (let n = int (length xs);
          a' = (if a < 0 then max (a + n) 0 else min a n);
          b' = (if b < 0 then max (b + n) 0 else min b n)
      in take (nat (b' - a')) (drop (nat a') xs))"

definition from_bytes :: "byte list \<Rightarrow> int" where
  \<comment> \<open>\<^verbatim>\<open>int.from_bytes(chunk, 'big')\<close>\<close>
  "from_bytes bs = foldl (\<lambda>a b. 256 * a + uint b) 0 bs"

definition hex_digit :: "int \<Rightarrow> int" where
  "hex_digit d = (if d < 10 then 48 + d else 87 + d)"

definition bytes_hex :: "byte list \<Rightarrow> ustr" where
  \<comment> \<open>\<^verbatim>\<open>chunk.hex()\<close>\<close>
  "bytes_hex bs = concat (map (\<lambda>b. [hex_digit (uint b div 16), hex_digit (uint b mod 16)]) bs)"

definition is_cont :: "int \<Rightarrow> bool" where
  "is_cont b = (128 \<le> b \<and> b < 192)"

fun utf8_ignore :: "int list \<Rightarrow> ustr" where
  \<comment> \<open>UTF-8 decoding with the \<^verbatim>\<open>ignore\<close> handler: an invalid start byte is dropped;
     a sequence broken by a byte that does not continue it is dropped up to that byte;
     a sequence cut by the end of the data is dropped\<close>
  "utf8_ignore [] = []"
| "utf8_ignore (c # bs) =
     (if c < 128 then c # utf8_ignore bs
      else if c < 194 then utf8_ignore bs
      else if c < 224 then
        (case bs of
           [] \<Rightarrow> []
         | b2 # r2 \<Rightarrow>
             if is_cont b2 then ((c - 192) * 64 + (b2 - 128)) # utf8_ignore r2 else utf8_ignore bs)
      else if c < 240 then
        (case bs of
           [] \<Rightarrow> []
         | b2 # r2 \<Rightarrow>
             if \<not> is_cont b2 \<or> (c = 224 \<and> b2 < 160) \<or> (c = 237 \<and> 160 \<le> b2) then utf8_ignore bs
             else (case r2 of
                     [] \<Rightarrow> []
                   | b3 # r3 \<Rightarrow>
                       if is_cont b3
                       then ((c - 224) * 4096 + (b2 - 128) * 64 + (b3 - 128)) # utf8_ignore r3
                       else utf8_ignore r2))
      else if c < 245 then
        (case bs of
           [] \<Rightarrow> []
         | b2 # r2 \<Rightarrow>
             if \<not> is_cont b2 \<or> (c = 240 \<and> b2 < 144) \<or> (c = 244 \<and> 144 \<le> b2) then utf8_ignore bs
             else (case r2 of
                     [] \<Rightarrow> []
                   | b3 # r3 \<Rightarrow>
                       if \<not> is_cont b3 then utf8_ignore r2
                       else (case r3 of
                               [] \<Rightarrow> []
                             | b4 # r4 \<Rightarrow>
                                 if is_cont b4
                                 then ((c - 240) * 262144 + (b2 - 128) * 4096 + (b3 - 128) * 64
                                        + (b4 - 128)) # utf8_ignore r4
                                 else utf8_ignore r3)))
      else utf8_ignore bs)"

definition decode_text :: "byte list \<Rightarrow> ustr" where
  \<comment> \<open>\<^verbatim>\<open>chunk.decode('utf-8','ignore').rstrip('\x00')\<close>\<close>
  "decode_text bs = rev (dropWhile (\<lambda>c. c = 0) (rev (utf8_ignore (map uint bs))))"

definition ieee :: "nat \<Rightarrow> nat \<Rightarrow> int \<Rightarrow> dbl" where
  \<comment> \<open>the value of an IEEE bit pattern \<open>n\<close> with \<open>w\<close> exponent bits and \<open>t\<close> fraction bits\<close>
  "ieee w t n =
     (let neg = (n div 2 ^ (w + t) = 1);
          e = (n div 2 ^ t) mod 2 ^ w;
          f = n mod 2 ^ t;
          bias = 2 ^ (w - 1) - 1
      in if e = 2 ^ w - 1 then (if f \<noteq> 0 then NaN else if neg then NInf else PInf)
         else let m = (if e = 0 then of_int f * pow2 (1 - bias - int t)
                       else of_int (2 ^ t + f) * pow2 (e - bias - int t))
              in Fin (if neg then - m else m))"

definition unpack_f :: "byte list \<Rightarrow> py_error + dbl" where
  \<comment> \<open>\<^verbatim>\<open>struct.unpack('!f', chunk)[0]\<close>: the chunk must hold exactly four bytes\<close>
  "unpack_f bs = (if length bs = 4 then Inr (ieee 8 23 (from_bytes bs)) else Inl StructError)"

definition unpack_d :: "byte list \<Rightarrow> py_error + dbl" where
  \<comment> \<open>\<^verbatim>\<open>struct.unpack('!d', chunk)[0]\<close>: exactly eight bytes\<close>
  "unpack_d bs = (if length bs = 8 then Inr (ieee 11 52 (from_bytes bs)) else Inl StructError)"


section \<open>Schema compiler\<close>

text \<open>
  One entry of the flattened schema is a row of the data frame that
  \<^verbatim>\<open>load_protocol_definitions\<close> returns. The custom-type catalogue comes from the
  document store; it is an input here, each sub-field already in the shape of a row
  (as \<^verbatim>\<open>load_custom_types\<close> builds them).
\<close>

record row =
  r_name :: string
  r_size :: int
  r_type :: string
  r_size_field :: string
  r_num_elements :: int
  r_is_bitfield :: bool

record custom_type =
  ct_fields :: "row list"
  ct_total_size :: int

fun str_of_nat :: "nat \<Rightarrow> string" where
  "str_of_nat n =
     (if n < 10 then [char_of (48 + n)] else str_of_nat (n div 10) @ [char_of (48 + n mod 10)])"

definition int_tok :: "string \<Rightarrow> py_error + int" where
  \<comment> \<open>\<^verbatim>\<open>int(tok)\<close> outside any \<^verbatim>\<open>try\<close>\<close>
  "int_tok t = (case py_int_str (ustr_of t) of Some n \<Rightarrow> Inr n | None \<Rightarrow> Inl ValueError)"

definition inline_sub :: "string \<Rightarrow> row \<Rightarrow> row" where
  "inline_sub prefix sub = sub\<lparr>r_name := prefix @ ''.'' @ r_name sub\<rparr>"

definition is_bit_type :: "string \<Rightarrow> bool" where
  "is_bit_type t = (py_lower t = ''bit'' \<or> py_lower t = ''bitfield'')"

definition compile_line :: "(string \<rightharpoonup> custom_type) \<Rightarrow> string list \<Rightarrow> py_error + row list" where
  "compile_line cts toks =
     (case toks of
        [name, sz, typ] \<Rightarrow>
          (case cts typ of
             Some ct \<Rightarrow> Inr (map (inline_sub name) (ct_fields ct))
           | None \<Rightarrow>
               (case int_tok sz of
                  Inl e \<Rightarrow> Inl e
                | Inr n \<Rightarrow> Inr [\<lparr>r_name = name, r_size = n, r_type = typ, r_size_field = [],
                                 r_num_elements = 0, r_is_bitfield = is_bit_type typ\<rparr>]))
      | [name, sz, typ, sf] \<Rightarrow>
          (case int_tok sz of
             Inl e \<Rightarrow> Inl e
           | Inr n \<Rightarrow> Inr [\<lparr>r_name = name, r_size = n, r_type = typ, r_size_field = sf,
                            r_num_elements = 0, r_is_bitfield = is_bit_type typ\<rparr>])
      | [name, sz, arr, base, ne] \<Rightarrow>
          if py_lower arr \<noteq> ''array'' then Inl ValueError
          else (case cts base of
                  Some ct \<Rightarrow>
                    (case int_tok sz of
                       Inl e \<Rightarrow> Inl e
                     | Inr tot \<Rightarrow>
                         (case int_tok ne of
                            Inl e \<Rightarrow> Inl e
                          | Inr count \<Rightarrow>
                              Inr (concat (map (\<lambda>i. map (inline_sub (name @ ''['' @ str_of_nat i @ '']''))
                                                          (ct_fields ct))
                                               [0..<nat count]))))
                | None \<Rightarrow>
                    (case int_tok sz of
                       Inl e \<Rightarrow> Inl e
                     | Inr n \<Rightarrow>
                         (case int_tok ne of
                            Inl e \<Rightarrow> Inl e
                          | Inr count \<Rightarrow>
                              Inr [\<lparr>r_name = name, r_size = n, r_type = ''array of '' @ base,
                                    r_size_field = [], r_num_elements = count,
                                    r_is_bitfield = False\<rparr>])))
      | _ \<Rightarrow> Inl ValueError)"

fun compile_lines :: "(string \<rightharpoonup> custom_type) \<Rightarrow> string list \<Rightarrow> py_error + row list" where
  "compile_lines cts [] = Inr []"
| "compile_lines cts (l # ls) =
     (case compile_line cts (py_split l) of
        Inl e \<Rightarrow> Inl e
      | Inr rs \<Rightarrow> (case compile_lines cts ls of Inl e \<Rightarrow> Inl e | Inr rest \<Rightarrow> Inr (rs @ rest)))"

definition load_protocol_definitions ::
  "string list \<Rightarrow> (string \<rightharpoonup> custom_type) \<Rightarrow> py_error + row list" where
  \<comment> \<open>the argument is the text of the file, line by line; a mismatch between the declared
     count and the number of rows only prints a warning\<close>
  "load_protocol_definitions file_lines cts =
     (case filter (\<lambda>l. l \<noteq> []) (map py_strip file_lines) of
        [] \<Rightarrow> Inl IndexError
      | first # ls \<Rightarrow>
          (case int_tok first of Inl e \<Rightarrow> Inl e | Inr declared \<Rightarrow> compile_lines cts ls))"

definition protocol_mapping :: "row list \<Rightarrow> (string \<rightharpoonup> string)" where
  \<comment> \<open>\<^verbatim>\<open>dict(zip(names, size_fields))\<close>: for a repeated name the last row wins\<close>
  "protocol_mapping rows = map_of (rev (map (\<lambda>r. (r_name r, r_size_field r)) rows))"

section \<open>Packet decoder\<close>

subsection \<open>Python integers and NumPy integers\<close>

text \<open>
  The decoder computes with two kinds of integers. A row that \<^verbatim>\<open>iterrows\<close> yields holds
  Python integers, which are unbounded; \<^verbatim>\<open>protocol_df.iloc[j]['size']\<close> is a
  \<^verbatim>\<open>numpy.int64\<close>, since the size column of the data frame is a 64-bit column (every
  declared size is taken to fit 64 bits: \<open>int64_sizes\<close>). A sum, difference or product
  with a NumPy operand is a NumPy integer, computed in 64 bits: on overflow NumPy warns and
  wraps around. A Python operand that does not fit 64 bits cannot be combined with a NumPy
  integer: NumPy 2 raises OverflowError, as here (NumPy 1 turns both into floats or
  objects, which is not followed).
\<close>

datatype pynum = Py int | Np int

fun ival :: "pynum \<Rightarrow> int" where
  "ival (Py n) = n"
| "ival (Np n) = n"

definition in64 :: "int \<Rightarrow> bool" where
  "in64 n = (- 9223372036854775808 \<le> n \<and> n < 9223372036854775808)"

definition wrap64 :: "int \<Rightarrow> int" where
  \<comment> \<open>the 64-bit two's-complement number congruent to \<open>n\<close>\<close>
  "wrap64 n = (n + 9223372036854775808) mod 18446744073709551616 - 9223372036854775808"

definition int64_sizes :: "row list \<Rightarrow> bool" where
  "int64_sizes rows = list_all (\<lambda>r. in64 (r_size r)) rows"

definition np_op :: "(int \<Rightarrow> int \<Rightarrow> int) \<Rightarrow> pynum \<Rightarrow> pynum \<Rightarrow> py_error + pynum" where
  "np_op f a b =
     (case (a, b) of
        (Py x, Py y) \<Rightarrow> Inr (Py (f x y))
      | _ \<Rightarrow> if in64 (ival a) \<and> in64 (ival b) then Inr (Np (wrap64 (f (ival a) (ival b))))
             else Inl OverflowError)"

definition np_add :: "pynum \<Rightarrow> pynum \<Rightarrow> py_error + pynum" where
  "np_add a b = np_op (\<lambda>x y. x + y) a b"

definition np_sub :: "pynum \<Rightarrow> pynum \<Rightarrow> py_error + pynum" where
  "np_sub a b = np_op (\<lambda>x y. x - y) a b"

definition np_mul :: "pynum \<Rightarrow> pynum \<Rightarrow> py_error + pynum" where
  "np_mul a b = np_op (\<lambda>x y. x * y) a b"

definition floordiv :: "pynum \<Rightarrow> int \<Rightarrow> py_error + pynum" where
  \<comment> \<open>\<^verbatim>\<open>fsize // ne\<close> with a Python integer \<^verbatim>\<open>ne\<close>: dividing a Python integer by zero
     raises; dividing a NumPy integer by zero gives 0 with a warning\<close>
  "floordiv a ne =
     (case a of
        Py x \<Rightarrow> if ne = 0 then Inl ZeroDivisionError else Inr (Py (x div ne))
      | Np x \<Rightarrow> if \<not> in64 ne then Inl OverflowError
                else if ne = 0 then Inr (Np 0)
                else Inr (Np (wrap64 (x div ne))))"

definition and_then :: "py_error + 'a \<Rightarrow> ('a \<Rightarrow> py_error + 'b) \<Rightarrow> py_error + 'b" where
  \<comment> \<open>one statement after another: an exception of the first ends both\<close>
  "and_then x f = (case x of Inl e \<Rightarrow> Inl e | Inr v \<Rightarrow> f v)"

subsection \<open>Decoding one packet\<close>

record drec =
  field_name :: string
  size_v :: pynum
  value_v :: pyval
  field_type :: string
  num_elements :: "int option"
  size_defining_field :: "string option"
  bitfields_count :: "int option"
  bit_vector :: "int list option"

definition remaining_after :: "row list \<Rightarrow> pynum" where
  \<comment> \<open>the loop over \<^verbatim>\<open>range(idx+1, len(protocol_df))\<close>; the argument holds the rows after
     the current one. \<^verbatim>\<open>remaining\<close> starts as the Python integer 0 and is a NumPy integer
     from the first non-zero size on.\<close>
  "remaining_after later =
     foldl (\<lambda>remaining s. if s \<noteq> 0 then Np (wrap64 (ival remaining + s)) else remaining)
       (Py 0) (map r_size later)"

definition dyn_size :: "row list \<Rightarrow> int \<Rightarrow> pynum \<Rightarrow> py_error + pynum" where
  \<comment> \<open>line 246: \<^verbatim>\<open>dyn = len(payload) - offset - remaining\<close>\<close>
  "dyn_size later plen offset =
     and_then (np_sub (Py plen) offset) (\<lambda>t. np_sub t (remaining_after later))"

definition resolve_size ::
  "row \<Rightarrow> row list \<Rightarrow> int \<Rightarrow> pynum \<Rightarrow> (string \<rightharpoonup> pyval) \<Rightarrow> py_error + pynum" where
  \<comment> \<open>lines 240 to 254: the size of the current field, given the rows after it, the
     payload length, the offset and the values decoded so far\<close>
  "resolve_size r later plen offset packet_data =
     (if r_size r = 0 then
        and_then (dyn_size later plen offset) (\<lambda>dyn.
          if r_size_field r \<noteq> [] then
            (case packet_data (r_size_field r) of
               None \<Rightarrow> Inr dyn
             | Some cand \<Rightarrow> (case py_int cand of Some n \<Rightarrow> Inr (Py n) | None \<Rightarrow> Inr dyn))
          else Inr dyn)
      else Inr (Py (r_size r)))"

definition decode_elem :: "string \<Rightarrow> byte list \<Rightarrow> py_error + scalar" where
  \<comment> \<open>one array element, by the lower-cased base type\<close>
  "decode_elem base chunk =
     (if py_lower base = ''int'' then Inr (VInt (from_bytes chunk))
      else if py_lower base = ''float'' then map_sum id VFloat (unpack_f chunk)
      else if py_lower base = ''double'' then map_sum id VFloat (unpack_d chunk)
      else if py_lower base = ''char'' then Inr (VStr (decode_text chunk))
      else Inr (VStr (bytes_hex chunk)))"

definition elem_chunk :: "byte list \<Rightarrow> pynum \<Rightarrow> pynum \<Rightarrow> nat \<Rightarrow> py_error + byte list" where
  \<comment> \<open>lines 267 and 268: \<^verbatim>\<open>payload[start:start+elem_sz]\<close> with \<^verbatim>\<open>start = offset + i*elem_sz\<close>\<close>
  "elem_chunk payload offset elem_sz i =
     and_then (np_mul (Py (int i)) elem_sz) (\<lambda>p.
     and_then (np_add offset p) (\<lambda>start.
     and_then (np_add start elem_sz) (\<lambda>stop.
       Inr (py_slice payload (ival start) (ival stop)))))"

fun decode_elems :: "string \<Rightarrow> byte list \<Rightarrow> pynum \<Rightarrow> pynum \<Rightarrow> nat list \<Rightarrow> py_error + scalar list" where
  \<comment> \<open>the loop \<^verbatim>\<open>for i in range(ne)\<close>, over the list of indices\<close>
  "decode_elems base payload offset elem_sz [] = Inr []"
| "decode_elems base payload offset elem_sz (i # ix) =
     and_then (elem_chunk payload offset elem_sz i) (\<lambda>chunk.
     and_then (decode_elem base chunk) (\<lambda>v.
     and_then (decode_elems base payload offset elem_sz ix) (\<lambda>vs. Inr (v # vs))))"

definition decode_array :: "byte list \<Rightarrow> row \<Rightarrow> pynum \<Rightarrow> pynum \<Rightarrow> py_error + scalar list" where
  \<comment> \<open>lines 262 to 279; nothing guards the division by the element count\<close>
  "decode_array payload r offset fsize =
     (let base = drop 9 (r_type r); ne = r_num_elements r
      in and_then (floordiv fsize ne) (\<lambda>elem_sz.
           decode_elems base payload offset elem_sz [0..<nat ne]))"

function bin_digits :: "int \<Rightarrow> int list" where
  "bin_digits n = (if n < 2 then [n] else bin_digits (n div 2) @ [n mod 2])"
  by pat_completeness auto
termination
  by (relation "measure nat") auto

definition format_bits :: "int \<Rightarrow> int \<Rightarrow> py_error + int list" where
  \<comment> \<open>\<^verbatim>\<open>list(map(int, format(n, f'0{w}b')))\<close>: a negative width is not a format\<close>
  "format_bits n w =
     (if w < 0 then Inl ValueError
      else let ds = bin_digits n in Inr (replicate (nat w - length ds) 0 @ ds))"

definition decode_scalar :: "string \<Rightarrow> byte list \<Rightarrow> py_error + scalar" where
  "decode_scalar ftype chunk =
     (let lt = py_lower ftype
      in if lt = ''int'' then Inr (VInt (from_bytes chunk))
         else if lt = ''float'' then map_sum id VFloat (unpack_f chunk)
         else if lt = ''double'' then map_sum id VFloat (unpack_d chunk)
         else if lt = ''char'' then Inr (VStr (decode_text chunk))
         else if lt = ''bool'' then Inr (VBool (from_bytes chunk \<noteq> 0))
         else Inr (VStr (bytes_hex chunk)))"

definition decode_field :: "byte list \<Rightarrow> row \<Rightarrow> pynum \<Rightarrow> pynum \<Rightarrow> pynum \<Rightarrow> py_error + drec" where
  \<comment> \<open>lines 261 to 330: the record of one field whose bounds check has passed; \<open>stop\<close> is
     \<^verbatim>\<open>offset+fsize\<close>, which the check has computed\<close>
  "decode_field payload r offset fsize stop =
     (if startswith (r_type r) ''array of '' then
        and_then (decode_array payload r offset fsize) (\<lambda>vals.
          Inr \<lparr>field_name = r_name r, size_v = fsize, value_v = Li vals, field_type = r_type r,
               num_elements = Some (r_num_elements r), size_defining_field = None,
               bitfields_count = None, bit_vector = None\<rparr>)
      else if r_is_bitfield r then
        and_then (np_mul fsize (Py 8)) (\<lambda>width.
        and_then (format_bits (from_bytes (py_slice payload (ival offset) (ival stop))) (ival width))
          (\<lambda>bits.
          Inr \<lparr>field_name = r_name r, size_v = fsize, value_v = Li (map VInt bits),
               field_type = r_type r, num_elements = None,
               size_defining_field = Some (r_size_field r),
               bitfields_count = Some (sum_list bits), bit_vector = Some bits\<rparr>))
      else
        and_then (decode_scalar (r_type r) (py_slice payload (ival offset) (ival stop))) (\<lambda>v.
          Inr \<lparr>field_name = r_name r, size_v = fsize, value_v = Sc v, field_type = r_type r,
               num_elements = None, size_defining_field = Some (r_size_field r),
               bitfields_count = None, bit_vector = None\<rparr>))"

fun decode_fields ::
  "byte list \<Rightarrow> row list \<Rightarrow> pynum \<Rightarrow> (string \<rightharpoonup> pyval) \<Rightarrow> drec list \<Rightarrow> py_error + drec list" where
  \<comment> \<open>the loop over the schema rows for one packet, from the current row on: the offset,
     the values decoded so far and the records so far are its state; the bounds check
     \<^verbatim>\<open>offset + fsize > len(payload)\<close> leaves the loop with the records so far\<close>
  "decode_fields payload [] offset packet_data records = Inr records"
| "decode_fields payload (r # later) offset packet_data records =
     and_then (resolve_size r later (int (length payload)) offset packet_data) (\<lambda>fsize.
     and_then (np_add offset fsize) (\<lambda>stop.
       if ival stop > int (length payload) then Inr records
       else and_then (decode_field payload r offset fsize stop) (\<lambda>rec.
              decode_fields payload later stop
                (packet_data(r_name r \<mapsto> value_v rec)) (records @ [rec]))))"

definition decode_packet :: "row list \<Rightarrow> byte list \<Rightarrow> py_error + drec list" where
  "decode_packet schema payload = decode_fields payload schema (Py 0) Map.empty []"

subsection \<open>The capture\<close>

text \<open>
  A packet of the capture, as far as the decoder looks at it: whether it has a UDP layer,
  the two ports, whether it has an IPv4 layer, the two addresses, and the UDP payload.
\<close>

record packet =
  has_udp :: bool
  sport :: int
  dport :: int
  has_ip :: bool
  ip_src :: string
  ip_dst :: string
  udp_payload :: "byte list"

type_synonym series = "(string \<times> drec list list) list"

definition add_packet :: "series \<Rightarrow> string \<Rightarrow> drec list \<Rightarrow> series" where
  \<comment> \<open>\<^verbatim>\<open>if records: data[src_ip].append(records)\<close>; the dictionary keeps the order of first insertion\<close>
  "add_packet data src_ip records =
     (if records = [] then data
      else if src_ip \<in> fst ` set data
           then map (\<lambda>(k, v). if k = src_ip then (k, v @ [records]) else (k, v)) data
           else data @ [(src_ip, [records])])"

definition endpoint_of :: "packet \<Rightarrow> string" where
  \<comment> \<open>line 226\<close>
  "endpoint_of pkt = (if dport pkt = 10000 then ip_src pkt else ip_dst pkt)"

fun parse_packets :: "row list \<Rightarrow> packet list \<Rightarrow> series \<Rightarrow> py_error + series" where
  \<comment> \<open>the loop over the packets; \<^verbatim>\<open>pkt[IP]\<close> raises IndexError on a packet without an IPv4
     layer, before anything of it is decoded\<close>
  "parse_packets schema [] data = Inr data"
| "parse_packets schema (pkt # pkts) data =
     (if has_udp pkt \<and> (dport pkt = 10000 \<or> sport pkt = 10000) then
        (if \<not> has_ip pkt then Inl IndexError
         else and_then (decode_packet schema (udp_payload pkt)) (\<lambda>records.
                parse_packets schema pkts (add_packet data (endpoint_of pkt) records)))
      else parse_packets schema pkts data)"

definition parse_pcap_with_ip :: "packet list \<Rightarrow> row list \<Rightarrow> py_error + series" where
  "parse_pcap_with_ip packets schema = parse_packets schema packets []"


section \<open>Aggregates\<close>

text \<open>
  Of the nine numbers of \<^verbatim>\<open>extract_aggregated_features\<close>, the synthesizer itself reads the
  four extremes; the count, the means and the deviations only feed the external model,
  which is an input of this development.
\<close>

record features =
  feat_min_size :: dbl
  feat_max_size :: dbl
  feat_min_value :: dbl
  feat_max_value :: dbl

definition np_min :: "dbl list \<Rightarrow> dbl" where
  \<comment> \<open>\<^verbatim>\<open>arr.min()\<close> of a non-empty array: not-a-number as soon as one entry is\<close>
  "np_min xs = (if NaN \<in> set xs then NaN else foldl (\<lambda>m x. if dlt x m then x else m) (hd xs) (tl xs))"

definition np_max :: "dbl list \<Rightarrow> dbl" where
  "np_max xs = (if NaN \<in> set xs then NaN else foldl (\<lambda>m x. if dlt m x then x else m) (hd xs) (tl xs))"

definition float_or_zero :: "scalar \<Rightarrow> dbl" where
  \<comment> \<open>\<^verbatim>\<open>try: float(v) except: 0.0\<close>\<close>
  "float_or_zero v = (case float_of_scalar v of Some d \<Rightarrow> d | None \<Rightarrow> Fin 0)"

definition numeric_vals_of :: "drec \<Rightarrow> dbl list" where
  "numeric_vals_of s =
     (case value_v s of
        Li elts \<Rightarrow> map float_or_zero elts
      | Sc v \<Rightarrow>
          if py_lower (field_type s) \<in> set [''int'', ''float'', ''double'', ''long'', ''short'']
          then [float_or_zero v] else [Fin 0])"

definition float_of_int :: "int \<Rightarrow> py_error + dbl" where
  \<comment> \<open>the conversion of an integer to a float: the nearest double, and an exception when
     that is beyond the largest one\<close>
  "float_of_int n = (case to_dbl (of_int n) of Fin r \<Rightarrow> Inr (Fin r) | _ \<Rightarrow> Inl OverflowError)"

fun sequence :: "(py_error + 'a) list \<Rightarrow> py_error + 'a list" where
  \<comment> \<open>a comprehension whose items may raise: the first exception, else all results\<close>
  "sequence [] = Inr []"
| "sequence (x # xs) =
     (case x of
        Inl e \<Rightarrow> Inl e
      | Inr v \<Rightarrow> (case sequence xs of Inl e \<Rightarrow> Inl e | Inr vs \<Rightarrow> Inr (v # vs)))"

definition size_array :: "drec list \<Rightarrow> py_error + dbl list" where
  \<comment> \<open>line 349, \<^verbatim>\<open>np.array([s['size'] for s in stats], dtype=float)\<close>: every size becomes
     the double nearest to it\<close>
  "size_array stats = sequence (map (\<lambda>s. float_of_int (ival (size_v s))) stats)"

definition extract_aggregated_features :: "drec list \<Rightarrow> py_error + features" where
  "extract_aggregated_features stats =
     and_then (size_array stats) (\<lambda>sizes.
       let numeric_vals = concat (map numeric_vals_of stats)
       in Inr \<lparr>feat_min_size = (if sizes = [] then Fin 0 else np_min sizes),
               feat_max_size = (if sizes = [] then Fin 0 else np_max sizes),
               feat_min_value = (if numeric_vals = [] then Fin 0 else np_min numeric_vals),
               feat_max_value = (if numeric_vals = [] then Fin 0 else np_max numeric_vals)\<rparr>)"

section \<open>Segmentation\<close>

definition numeric_types :: "string list" where
  "numeric_types = [''int'', ''float'', ''double'', ''long'']"

definition size_axis :: "drec list \<Rightarrow> dbl list" where
  \<comment> \<open>\<^verbatim>\<open>np.array([s['size'] for s in stats])\<close>: an array of integers, each entry the
     size itself\<close>
  "size_axis stats = map (\<lambda>s. Fin (of_int (ival (size_v s)))) stats"

definition cluster_axis :: "drec list \<Rightarrow> dbl list" where
  \<comment> \<open>lines 405 to 416, for a non-empty list: the array \<^verbatim>\<open>values\<close>\<close>
  "cluster_axis stats =
     (if py_lower (field_type (hd stats)) \<in> set numeric_types then
        (let numeric_values = (case those (map (\<lambda>s. py_float (value_v s)) stats) of
                                 Some vs \<Rightarrow> vs
                               | None \<Rightarrow> size_axis stats)
         in if list_all deq0 numeric_values then size_axis stats else numeric_values)
      else size_axis stats)"

definition np_lt :: "dbl \<Rightarrow> dbl \<Rightarrow> bool" where
  \<comment> \<open>the order of \<^verbatim>\<open>np.argsort\<close>: not-a-number sorts last\<close>
  "np_lt a b = (if is_nan b then \<not> is_nan a else dlt a b)"

fun insort_pair :: "dbl \<times> nat \<Rightarrow> (dbl \<times> nat) list \<Rightarrow> (dbl \<times> nat) list" where
  "insort_pair p [] = [p]"
| "insort_pair p (q # qs) = (if np_lt (fst p) (fst q) then p # q # qs else q # insort_pair p qs)"

definition argsort_pairs :: "dbl list \<Rightarrow> (dbl \<times> nat) list" where
  \<comment> \<open>the values with their indices, sorted by value; entries of equal value keep the
     order of their indices (NumPy's default sort leaves the order of ties open)\<close>
  "argsort_pairs vs = foldl (\<lambda>acc p. insort_pair p acc) [] (zip vs [0..<length vs])"

fun np_diff :: "dbl list \<Rightarrow> dbl list" where
  "np_diff (a # b # xs) = dsub b a # np_diff (b # xs)"
| "np_diff _ = []"

fun argmax_from :: "dbl list \<Rightarrow> nat \<Rightarrow> nat \<Rightarrow> dbl \<Rightarrow> nat" where
  \<comment> \<open>the scan of \<^verbatim>\<open>np.argmax\<close>: the first not-a-number wins, else the first maximum\<close>
  "argmax_from [] j best m = best"
| "argmax_from (x # xs) j best m =
     (if is_nan m then best
      else if is_nan x \<or> dlt m x then argmax_from xs (Suc j) j x
      else argmax_from xs (Suc j) best m)"

definition np_argmax :: "dbl list \<Rightarrow> nat" where
  "np_argmax xs = argmax_from (tl xs) 1 0 (hd xs)"

function str_of_int :: "int \<Rightarrow> string" where
  "str_of_int n =
     (if n < 0 then CHR ''-'' # str_of_int (- n)
      else if n < 10 then [char_of (48 + n)]
      else str_of_int (n div 10) @ [char_of (48 + n mod 10)])"
  by pat_completeness auto
termination
  by (relation "measure (\<lambda>n. if n < 0 then nat (1 - n) else nat n)") auto

definition main_percentage :: "nat \<Rightarrow> nat \<Rightarrow> py_error + int" where
  \<comment> \<open>\<^verbatim>\<open>int(round((len(main_indices)/len(stats)) * 100))\<close>, in double precision\<close>
  "main_percentage m n =
     (case ddiv (Fin (of_nat m)) (Fin (of_nat n)) of
        Inl e \<Rightarrow> Inl e
      | Inr q \<Rightarrow> py_round (dmul q (Fin 100)))"

definition dict_set :: "('k \<times> 'v) list \<Rightarrow> 'k \<Rightarrow> 'v \<Rightarrow> ('k \<times> 'v) list" where
  \<comment> \<open>\<^verbatim>\<open>d[k] = v\<close> on a dictionary in insertion order: an existing key keeps its place\<close>
  "dict_set d k v =
     (if k \<in> fst ` set d then map (\<lambda>(k', v'). if k' = k then (k', v) else (k', v')) d
      else d @ [(k, v)])"

definition split_at_gap :: "dbl list \<Rightarrow> nat list \<times> nat list" where
  \<comment> \<open>lines 420 to 437 past the three early returns: the main and the outlier group\<close>
  "split_at_gap vs =
     (let ps = argsort_pairs vs;
          sorted_indices = map snd ps;
          max_gap_index = np_argmax (np_diff (map fst ps));
          seg1_indices = take (max_gap_index + 1) sorted_indices;
          seg2_indices = drop (max_gap_index + 1) sorted_indices
      in if length seg1_indices \<ge> length seg2_indices then (seg1_indices, seg2_indices)
         else (seg2_indices, seg1_indices))"

definition overall_range :: "dbl list \<Rightarrow> dbl" where
  "overall_range vs = (let sorted_values = map fst (argsort_pairs vs) in dsub (last sorted_values) (hd sorted_values))"

definition gap :: "dbl list \<Rightarrow> dbl" where
  "gap vs = (let diffs = np_diff (map fst (argsort_pairs vs)) in diffs ! np_argmax diffs)"

definition one_percent :: dbl where
  \<comment> \<open>the double written \<^verbatim>\<open>0.01\<close>\<close>
  "one_percent = to_dbl (1 / 100)"

definition collapses :: "dbl list \<Rightarrow> bool" where
  \<comment> \<open>the three early returns of lines 418 to 429\<close>
  "collapses vs =
     (length vs < 2 \<or> deq0 (overall_range vs) \<or> dlt (gap vs) (dmul one_percent (overall_range vs)))"

definition segment_values :: "dbl list \<Rightarrow> py_error + (string \<times> nat list) list" where
  "segment_values vs =
     (let every = [0..<length vs]
      in if collapses vs then Inr [(''100%'', every)]
         else let (main_indices, outlier_indices) = split_at_gap vs
              in case main_percentage (length main_indices) (length vs) of
                   Inl e \<Rightarrow> Inl e
                 | Inr pct \<Rightarrow>
                     Inr (dict_set (dict_set [] (str_of_int pct @ ''%'') main_indices) ''100%'' every))"

definition segment_stats :: "drec list \<Rightarrow> py_error + (string \<times> nat list) list" where
  "segment_stats stats = (if stats = [] then Inl IndexError else segment_values (cluster_axis stats))"

section \<open>Synthesizer\<close>

text \<open>
  The seven outputs of the external model for one feature vector, after the conversions
  of lines 483 to 508 and 515: the two class indices are the \<^verbatim>\<open>argmax\<close> of the class
  scores, the label encoder has turned the type class into a type name, and the five
  regression outputs are floats, any of which may be not-a-number. The model sees the
  occurrences of one segment only through its feature vector, so it is a function of
  that occurrence list here.
\<close>

record preds =
  p_is_dynamic_class :: nat
  p_min_size :: dbl
  p_max_size :: dbl
  p_min_value :: dbl
  p_max_value :: dbl
  p_field_type :: string
  p_bit_count :: dbl

datatype num = Num dbl | Nums "dbl list"

record field_dpi =
  is_dynamic_array :: bool
  min_size :: num
  max_size :: num
  min_value :: "num option"
  max_value :: "num option"
  dpi_size_defining_field :: "string option"
  dpi_field_type :: string
  dpi_bitfields_count :: "int option"

fun lex_lt :: "string \<Rightarrow> string \<Rightarrow> bool" where
  \<comment> \<open>\<^verbatim>\<open><\<close> on text: by code point, a proper prefix first\<close>
  "lex_lt [] [] = False"
| "lex_lt [] (b # bs) = True"
| "lex_lt (a # as) [] = False"
| "lex_lt (a # as) (b # bs) =
     (if (of_char a :: int) < of_char b then True
      else if (of_char b :: int) < of_char a then False
      else lex_lt as bs)"

definition count_of :: "'a \<Rightarrow> 'a list \<Rightarrow> nat" where
  "count_of x xs = length (filter (\<lambda>y. y = x) xs)"

definition mode0 :: "string list \<Rightarrow> string" where
  \<comment> \<open>\<^verbatim>\<open>pd.Series(xs).mode()[0]\<close> of a non-empty list: of the most frequent values, the
     least\<close>
  "mode0 xs =
     foldl (\<lambda>best x. if count_of best xs < count_of x xs
                          \<or> (count_of x xs = count_of best xs \<and> lex_lt x best)
                       then x else best)
       (hd xs) (tl xs)"

definition aggregated_field_type :: "drec list \<Rightarrow> string" where
  \<comment> \<open>lines 509 and 510, over all occurrences of the field\<close>
  "aggregated_field_type stats = (if stats = [] then ''unknown'' else mode0 (map field_type stats))"

definition has_size_field :: "row list \<Rightarrow> string \<Rightarrow> bool" where
  \<comment> \<open>the test of lines 486 and 487\<close>
  "has_size_field protocol_df fname =
     (case protocol_mapping protocol_df fname of
        Some sf \<Rightarrow> py_strip sf \<noteq> []
      | None \<Rightarrow> False)"

definition is_dynamic_rule :: "row list \<Rightarrow> string \<Rightarrow> features \<Rightarrow> preds \<Rightarrow> bool" where
  \<comment> \<open>lines 483 to 491\<close>
  "is_dynamic_rule protocol_df fname feats p =
     (if has_size_field protocol_df fname then True
      else if deq (feat_min_size feats) (feat_max_size feats) then False
      else p_is_dynamic_class p \<noteq> 0)"

definition float_conv :: "scalar \<Rightarrow> py_error + dbl" where
  \<comment> \<open>\<^verbatim>\<open>float(v)\<close> outside any \<^verbatim>\<open>try\<close>\<close>
  "float_conv v =
     (case float_of_scalar v of
        Some d \<Rightarrow> Inr d
      | None \<Rightarrow> (case v of VInt _ \<Rightarrow> Inl OverflowError | _ \<Rightarrow> Inl ValueError))"

definition py_add :: "scalar \<Rightarrow> scalar \<Rightarrow> py_error + scalar" where
  \<comment> \<open>\<^verbatim>\<open>a + b\<close> on numbers: exact on integers, in double precision as soon as one side is
     a float; text cannot be added to a number\<close>
  "py_add a b =
     (case (a, b) of
        (VStr _, _) \<Rightarrow> Inl TypeError
      | (_, VStr _) \<Rightarrow> Inl TypeError
      | (VFloat x, VFloat y) \<Rightarrow> Inr (VFloat (dadd x y))
      | (VFloat x, _) \<Rightarrow>
          and_then (float_of_int (the (int_of_scalar b))) (\<lambda>y. Inr (VFloat (dadd x y)))
      | (_, VFloat y) \<Rightarrow>
          and_then (float_of_int (the (int_of_scalar a))) (\<lambda>x. Inr (VFloat (dadd x y)))
      | _ \<Rightarrow> Inr (VInt (the (int_of_scalar a) + the (int_of_scalar b))))"

fun py_sum_from :: "scalar \<Rightarrow> scalar list \<Rightarrow> py_error + scalar" where
  "py_sum_from acc [] = Inr acc"
| "py_sum_from acc (v # vs) = and_then (py_add acc v) (\<lambda>acc'. py_sum_from acc' vs)"

definition py_sum :: "scalar list \<Rightarrow> py_error + scalar" where
  \<comment> \<open>\<^verbatim>\<open>sum(value)\<close>: the items added to 0 from the left (as the interpreters before 3.12
     add floats)\<close>
  "py_sum vs = py_sum_from (VInt 0) vs"


fun popcounts :: "drec list \<Rightarrow> py_error + scalar list" where
  \<comment> \<open>\<^verbatim>\<open>[sum(s['value']) for s in alt_stats if isinstance(s['value'], list)]\<close>\<close>
  "popcounts [] = Inr []"
| "popcounts (s # ss) =
     (case value_v s of
        Sc _ \<Rightarrow> popcounts ss
      | Li elts \<Rightarrow>
          and_then (py_sum elts) (\<lambda>c. and_then (popcounts ss) (\<lambda>cs. Inr (c # cs))))"

definition np_mean :: "scalar list \<Rightarrow> py_error + dbl" where
  \<comment> \<open>\<^verbatim>\<open>np.mean\<close> of a list of numbers: not-a-number for the empty list; else the numbers
     become doubles, are added and the sum is divided by their count. They are added from
     the left here; NumPy adds them in blocks, which gives the same double whenever every
     partial sum is an integer of magnitude up to \<open>2\<^sup>5\<^sup>3\<close>, as with population counts (and
     integers beyond 64 bits it averages as objects, which is not followed).\<close>
  "np_mean cs =
     (if cs = [] then Inr NaN
      else and_then (sequence (map float_conv cs)) (\<lambda>ds.
             Inr (fdiv (foldl dadd (Fin 0) ds) (Fin (of_nat (length ds))))))"

definition bit_count_rule :: "string \<Rightarrow> drec list \<Rightarrow> preds \<Rightarrow> py_error + int option" where
  \<comment> \<open>lines 514 to 521\<close>
  "bit_count_rule agg_type alt_stats p =
     (if py_lower agg_type = ''bitfield'' then
        (if is_nan (p_bit_count p) then
           and_then (popcounts alt_stats) (\<lambda>cs.
           and_then (np_mean cs) (\<lambda>m. map_sum id Some (py_round m)))
         else map_sum id Some (py_round (p_bit_count p)))
      else Inr None)"

definition num_of :: "scalar \<Rightarrow> dbl option" where
  \<comment> \<open>the exact number a numeric value stands for in a comparison\<close>
  "num_of v = (case v of VInt n \<Rightarrow> Some (Fin (of_int n)) | VFloat d \<Rightarrow> Some d
               | VBool b \<Rightarrow> Some (Fin (if b then 1 else 0)) | VStr _ \<Rightarrow> None)"

fun ustr_lt :: "ustr \<Rightarrow> ustr \<Rightarrow> bool" where
  "ustr_lt [] [] = False"
| "ustr_lt [] (b # bs) = True"
| "ustr_lt (a # as) [] = False"
| "ustr_lt (a # as) (b # bs) = (if a < b then True else if b < a then False else ustr_lt as bs)"

definition scalar_lt :: "scalar \<Rightarrow> scalar \<Rightarrow> py_error + bool" where
  \<comment> \<open>\<^verbatim>\<open>a < b\<close>: numbers by value, text by code point, text against a number raises\<close>
  "scalar_lt a b =
     (case (a, b) of
        (VStr s, VStr t) \<Rightarrow> Inr (ustr_lt s t)
      | _ \<Rightarrow> (case (num_of a, num_of b) of
                (Some x, Some y) \<Rightarrow> Inr (dlt x y)
              | _ \<Rightarrow> Inl TypeError))"

fun py_min_from :: "scalar \<Rightarrow> scalar list \<Rightarrow> py_error + scalar" where
  \<comment> \<open>\<^verbatim>\<open>min\<close>: the running minimum is replaced by an item that is less\<close>
  "py_min_from cur [] = Inr cur"
| "py_min_from cur (x # xs) =
     (case scalar_lt x cur of
        Inl e \<Rightarrow> Inl e
      | Inr lt \<Rightarrow> py_min_from (if lt then x else cur) xs)"

fun py_max_from :: "scalar \<Rightarrow> scalar list \<Rightarrow> py_error + scalar" where
  "py_max_from cur [] = Inr cur"
| "py_max_from cur (x # xs) =
     (case scalar_lt cur x of
        Inl e \<Rightarrow> Inl e
      | Inr lt \<Rightarrow> py_max_from (if lt then x else cur) xs)"

definition float_min :: "scalar list \<Rightarrow> py_error + dbl" where
  \<comment> \<open>\<^verbatim>\<open>float(min(lst)) if lst else 0.0\<close>\<close>
  "float_min lst =
     (case lst of
        [] \<Rightarrow> Inr (Fin 0)
      | x # xs \<Rightarrow> (case py_min_from x xs of Inl e \<Rightarrow> Inl e | Inr m \<Rightarrow> float_conv m))"

definition float_max :: "scalar list \<Rightarrow> py_error + dbl" where
  "float_max lst =
     (case lst of
        [] \<Rightarrow> Inr (Fin 0)
      | x # xs \<Rightarrow> (case py_max_from x xs of Inl e \<Rightarrow> Inl e | Inr m \<Rightarrow> float_conv m))"

definition value_at :: "pyval \<Rightarrow> nat \<Rightarrow> py_error + scalar" where
  \<comment> \<open>\<^verbatim>\<open>rec['value'][i]\<close>: an element of a list, a character of a text; a number has no items\<close>
  "value_at v i =
     (case v of
        Li elts \<Rightarrow> if i < length elts then Inr (elts ! i) else Inl IndexError
      | Sc (VStr s) \<Rightarrow> if i < length s then Inr (VStr [s ! i]) else Inl IndexError
      | Sc _ \<Rightarrow> Inl TypeError)"

definition value_lists :: "drec list \<Rightarrow> nat \<Rightarrow> py_error + scalar list list" where
  \<comment> \<open>lines 560 to 563: for each element index, that element of every occurrence\<close>
  "value_lists alt_stats nelems =
     sequence (map (\<lambda>i. sequence (map (\<lambda>rec. value_at (value_v rec) i) alt_stats)) [0..<nelems])"

definition expand_fixed_array ::
  "row \<Rightarrow> drec list \<Rightarrow> dbl \<Rightarrow> dbl \<Rightarrow> field_dpi \<Rightarrow> py_error + field_dpi" where
  \<comment> \<open>lines 541 to 574 for the first schema row of the field's name; \<^verbatim>\<open>min_size_pred\<close> and
     \<^verbatim>\<open>max_size_pred\<close> are the scalar bounds after the not-a-number fallback\<close>
  "expand_fixed_array proto_row alt_stats min_size_pred max_size_pred d =
     (let nelems = r_num_elements proto_row
      in if startswith (r_type proto_row) ''array of '' \<and> 0 < nelems then
           (case float_of_int nelems of
              Inl e \<Rightarrow> Inl e
            | Inr w \<Rightarrow>
           (case py_floordiv min_size_pred w of
              Inl e \<Rightarrow> Inl e
            | Inr min_elem_sz \<Rightarrow>
           (case py_floordiv max_size_pred w of
              Inl e \<Rightarrow> Inl e
            | Inr max_elem_sz \<Rightarrow>
           (case value_lists alt_stats (nat nelems) of
              Inl e \<Rightarrow> Inl e
            | Inr vlists \<Rightarrow>
                if py_lower (drop 9 (r_type proto_row)) \<in> set numeric_types then
                  (case sequence (map float_min vlists) of
                     Inl e \<Rightarrow> Inl e
                   | Inr min_vals \<Rightarrow>
                  (case sequence (map float_max vlists) of
                     Inl e \<Rightarrow> Inl e
                   | Inr max_vals \<Rightarrow>
                       Inr (d\<lparr>min_size := Nums (replicate (nat nelems) min_elem_sz),
                              max_size := Nums (replicate (nat nelems) max_elem_sz),
                              min_value := Some (Nums min_vals),
                              max_value := Some (Nums max_vals)\<rparr>)))
                else
                  Inr (d\<lparr>min_size := Nums (replicate (nat nelems) min_elem_sz),
                         max_size := Nums (replicate (nat nelems) max_elem_sz),
                         min_value := None, max_value := None\<rparr>)))))
         else Inr d)"

definition numeric_final :: "string \<Rightarrow> bool" where
  \<comment> \<open>the test of line 578 on the lower-cased final type\<close>
  "numeric_final t = (\<exists>nb \<in> set numeric_types. t = nb \<or> startswith t (''array of '' @ nb))"

definition null_non_numeric :: "field_dpi \<Rightarrow> field_dpi" where
  \<comment> \<open>lines 576 to 580\<close>
  "null_non_numeric d =
     (if numeric_final (py_lower (dpi_field_type d)) then d
      else d\<lparr>min_value := None, max_value := None\<rparr>)"

definition round_num :: "num \<Rightarrow> num" where
  "round_num x = (case x of Num v \<Rightarrow> Num (round3 v) | Nums vs \<Rightarrow> Nums (map round3 vs))"

definition round_dpi :: "field_dpi \<Rightarrow> field_dpi" where
  \<comment> \<open>lines 584 to 597: every size and value number to three decimals\<close>
  "round_dpi d =
     d\<lparr>min_size := round_num (min_size d), max_size := round_num (max_size d),
       min_value := map_option round_num (min_value d),
       max_value := map_option round_num (max_value d)\<rparr>"

definition size_def_pred :: "row list \<Rightarrow> string \<Rightarrow> string option" where
  \<comment> \<open>lines 524 to 526\<close>
  "size_def_pred protocol_df fname =
     (case protocol_mapping protocol_df fname of
        Some sf \<Rightarrow> if py_strip sf = [] then None else Some sf
      | None \<Rightarrow> None)"

definition synth_field ::
  "row list \<Rightarrow> string \<Rightarrow> drec list \<Rightarrow> drec list \<Rightarrow> preds \<Rightarrow> py_error + field_dpi" where
  \<comment> \<open>the body of the loop over the segments of one field (lines 471 to 599): \<^verbatim>\<open>stats\<close> are
     all occurrences of the field, \<^verbatim>\<open>alt_stats\<close> those of the segment, \<^verbatim>\<open>p\<close> the model's
     answer for the segment\<close>
  "synth_field protocol_df fname stats alt_stats p =
     and_then (extract_aggregated_features alt_stats) (\<lambda>features.
      let min_size_pred = nan_to (p_min_size p) (feat_min_size features);
          max_size_pred = nan_to (p_max_size p) (feat_max_size features);
          min_value_pred = nan_to (p_min_value p) (feat_min_value features);
          max_value_pred = nan_to (p_max_value p) (feat_max_value features);
          agg_type = aggregated_field_type stats;
          field_type_pred = (if agg_type \<noteq> ''bitfield'' then agg_type else p_field_type p)
      in case bit_count_rule agg_type alt_stats p of
           Inl e \<Rightarrow> Inl e
         | Inr aggregated_bit_count \<Rightarrow>
             (case find (\<lambda>r. r_name r = fname) protocol_df of
                None \<Rightarrow> Inl IndexError
              | Some proto_row \<Rightarrow>
                  (case expand_fixed_array proto_row alt_stats min_size_pred max_size_pred
                          \<lparr>is_dynamic_array = is_dynamic_rule protocol_df fname features p,
                           min_size = Num min_size_pred, max_size = Num max_size_pred,
                           min_value = Some (Num min_value_pred),
                           max_value = Some (Num max_value_pred),
                           dpi_size_defining_field = size_def_pred protocol_df fname,
                           dpi_field_type = field_type_pred,
                           dpi_bitfields_count = aggregated_bit_count\<rparr> of
                     Inl e \<Rightarrow> Inl e
                   | Inr d \<Rightarrow> Inr (round_dpi (null_non_numeric d)))))"

subsection \<open>One endpoint\<close>

type_synonym model = "drec list \<Rightarrow> preds"

fun group_fields :: "drec list \<Rightarrow> (string \<times> drec list) list \<Rightarrow> (string \<times> drec list) list" where
  \<comment> \<open>\<^verbatim>\<open>field_stats[field['field_name']].append(field)\<close> over the records in order\<close>
  "group_fields [] acc = acc"
| "group_fields (f # fs) acc =
     group_fields fs
       (if field_name f \<in> fst ` set acc
        then map (\<lambda>(k, v). if k = field_name f then (k, v @ [f]) else (k, v)) acc
        else acc @ [(field_name f, [f])])"

definition field_stats :: "drec list list \<Rightarrow> (string \<times> drec list) list" where
  "field_stats packets = group_fields (concat packets) []"

definition pick :: "'a list \<Rightarrow> nat list \<Rightarrow> py_error + 'a list" where
  \<comment> \<open>\<^verbatim>\<open>[stats[i] for i in indices]\<close>\<close>
  "pick stats indices = sequence (map (\<lambda>i. if i < length stats then Inr (stats ! i) else Inl IndexError) indices)"

fun synth_segments ::
  "model \<Rightarrow> row list \<Rightarrow> string \<Rightarrow> drec list \<Rightarrow> (string \<times> nat list) list
     \<Rightarrow> py_error + (string \<times> field_dpi) list" where
  \<comment> \<open>the loop over \<^verbatim>\<open>seg_dict.items()\<close>; the labels of a dictionary are distinct\<close>
  "synth_segments mdl protocol_df fname stats [] = Inr []"
| "synth_segments mdl protocol_df fname stats ((alt_label, indices) # segs) =
     (case pick stats indices of
        Inl e \<Rightarrow> Inl e
      | Inr alt_stats \<Rightarrow>
          (case synth_field protocol_df fname stats alt_stats (mdl alt_stats) of
             Inl e \<Rightarrow> Inl e
           | Inr d \<Rightarrow>
               (case synth_segments mdl protocol_df fname stats segs of
                  Inl e \<Rightarrow> Inl e
                | Inr rest \<Rightarrow> Inr ((alt_label, d) # rest))))"

fun synth_fields ::
  "model \<Rightarrow> row list \<Rightarrow> (string \<times> drec list) list
     \<Rightarrow> py_error + (string \<times> (string \<times> field_dpi) list) list" where
  \<comment> \<open>the loop over \<^verbatim>\<open>field_stats.items()\<close>, building \<^verbatim>\<open>fields_dpi\<close>\<close>
  "synth_fields mdl protocol_df [] = Inr []"
| "synth_fields mdl protocol_df ((fname, stats) # fs) =
     (case segment_stats stats of
        Inl e \<Rightarrow> Inl e
      | Inr seg_dict \<Rightarrow>
          (case synth_segments mdl protocol_df fname stats seg_dict of
             Inl e \<Rightarrow> Inl e
           | Inr alts \<Rightarrow>
               (case synth_fields mdl protocol_df fs of
                  Inl e \<Rightarrow> Inl e
                | Inr rest \<Rightarrow> Inr ((fname, alts) # rest))))"

definition all_alt_keys :: "(string \<times> (string \<times> field_dpi) list) list \<Rightarrow> string list" where
  \<comment> \<open>the set of labels; it is listed here in the order of first insertion, the order in
     which Python iterates a set being open\<close>
  "all_alt_keys fields_dpi = rev (remdups (rev (concat (map (\<lambda>(f, alts). map fst alts) fields_dpi))))"

definition fill_field :: "string \<Rightarrow> string \<times> (string \<times> field_dpi) list \<Rightarrow> py_error + string \<times> field_dpi" where
  \<comment> \<open>lines 607 to 610 for one field\<close>
  "fill_field alt_label fa =
     (case map_of (snd fa) alt_label of
        Some d \<Rightarrow> Inr (fst fa, d)
      | None \<Rightarrow> (case map_of (snd fa) ''100%'' of
                   Some d \<Rightarrow> Inr (fst fa, d)
                 | None \<Rightarrow> Inl KeyError))"

definition dpi_alternatives ::
  "(string \<times> (string \<times> field_dpi) list) list
     \<Rightarrow> py_error + (string \<times> (string \<times> field_dpi) list) list" where
  \<comment> \<open>lines 603 to 610\<close>
  "dpi_alternatives fields_dpi =
     sequence (map (\<lambda>alt_label. map_sum id (Pair alt_label) (sequence (map (fill_field alt_label) fields_dpi)))
                   (all_alt_keys fields_dpi))"

definition generate_dpi_endpoint ::
  "model \<Rightarrow> row list \<Rightarrow> drec list list \<Rightarrow> py_error + (string \<times> (string \<times> field_dpi) list) list" where
  \<comment> \<open>the body of the loop over the endpoints (lines 461 to 611)\<close>
  "generate_dpi_endpoint mdl protocol_df packets =
     (case synth_fields mdl protocol_df (field_stats packets) of
        Inl e \<Rightarrow> Inl e
      | Inr fields_dpi \<Rightarrow> dpi_alternatives fields_dpi)"

fun generate_dpi ::
  "model \<Rightarrow> row list \<Rightarrow> series
     \<Rightarrow> py_error + (string \<times> (string \<times> (string \<times> field_dpi) list) list) list" where
  "generate_dpi mdl protocol_df [] = Inr []"
| "generate_dpi mdl protocol_df ((endpoint_ip, packets) # eps) =
     (case generate_dpi_endpoint mdl protocol_df packets of
        Inl e \<Rightarrow> Inl e
      | Inr alts \<Rightarrow>
          (case generate_dpi mdl protocol_df eps of
             Inl e \<Rightarrow> Inl e
           | Inr rest \<Rightarrow> Inr ((endpoint_ip, alts) # rest)))"

section \<open>Example inputs\<close>





definition ex_float_arr :: row where
  "ex_float_arr = \<lparr>r_name = ''arr'', r_size = 8, r_type = ''array of float'', r_size_field = [],
                    r_num_elements = 4, r_is_bitfield = False\<rparr>"

definition ex_int_arr :: row where
  "ex_int_arr = \<lparr>r_name = ''ids'', r_size = 8, r_type = ''array of int'', r_size_field = [],
                  r_num_elements = 4, r_is_bitfield = False\<rparr>"

definition ex_zero_arr :: row where
  "ex_zero_arr = \<lparr>r_name = ''ids'', r_size = 8, r_type = ''array of int'', r_size_field = [],
                   r_num_elements = 0, r_is_bitfield = False\<rparr>"

definition ex_rec :: "string \<Rightarrow> int \<Rightarrow> pyval \<Rightarrow> string \<Rightarrow> drec" where
  \<comment> \<open>a scalar record as the decoder builds it\<close>
  "ex_rec n s v t = \<lparr>field_name = n, size_v = Py s, value_v = v, field_type = t, num_elements = None,
                     size_defining_field = Some [], bitfields_count = None, bit_vector = None\<rparr>"

definition ex_text_schema :: "row list" where
  \<comment> \<open>the rows of \<^verbatim>\<open>len 1 int\<close>, \<^verbatim>\<open>name 0 char len\<close>, \<^verbatim>\<open>id 4 int\<close>, \<^verbatim>\<open>tail 0 char\<close>\<close>
  "ex_text_schema =
     [\<lparr>r_name = ''len'', r_size = 1, r_type = ''int'', r_size_field = [], r_num_elements = 0,
        r_is_bitfield = False\<rparr>,
      \<lparr>r_name = ''name'', r_size = 0, r_type = ''char'', r_size_field = ''len'', r_num_elements = 0,
        r_is_bitfield = False\<rparr>,
      \<lparr>r_name = ''id'', r_size = 4, r_type = ''int'', r_size_field = [], r_num_elements = 0,
        r_is_bitfield = False\<rparr>,
      \<lparr>r_name = ''tail'', r_size = 0, r_type = ''char'', r_size_field = [], r_num_elements = 0,
        r_is_bitfield = False\<rparr>]"

definition ex_name_stats :: "drec list" where
  "ex_name_stats = [ex_rec ''name'' 2 (Sc (VStr (ustr_of ''hi''))) ''char'',
                    ex_rec ''name'' 3 (Sc (VStr (ustr_of ''abc''))) ''char'']"

definition ex_id_stats :: "drec list" where
  "ex_id_stats = [ex_rec ''id'' 4 (Sc (VInt 7)) ''int'', ex_rec ''id'' 4 (Sc (VInt 9)) ''int'']"

definition ex_tail_stats :: "drec list" where
  "ex_tail_stats = [ex_rec ''tail'' 1 (Sc (VStr (ustr_of ''x''))) ''char'',
                    ex_rec ''tail'' 6 (Sc (VStr (ustr_of ''qwerty''))) ''char'']"

definition ex_preds :: preds where
  \<comment> \<open>an answer of the model with three outputs that are not numbers\<close>
  "ex_preds = \<lparr>p_is_dynamic_class = 1, p_min_size = NaN, p_max_size = Fin 8, p_min_value = NaN,
               p_max_value = Fin 100, p_field_type = ''int'', p_bit_count = NaN\<rparr>"

definition ex_dup_schema :: "row list" where
  \<comment> \<open>five rows under one name: \<^verbatim>\<open>x 1 char\<close> twice, \<^verbatim>\<open>x 1 raw\<close>, \<^verbatim>\<open>x 5 raw\<close> twice\<close>
  "ex_dup_schema =
     [\<lparr>r_name = ''x'', r_size = 1, r_type = ''char'', r_size_field = [], r_num_elements = 0,
        r_is_bitfield = False\<rparr>,
      \<lparr>r_name = ''x'', r_size = 1, r_type = ''char'', r_size_field = [], r_num_elements = 0,
        r_is_bitfield = False\<rparr>,
      \<lparr>r_name = ''x'', r_size = 1, r_type = ''raw'', r_size_field = [], r_num_elements = 0,
        r_is_bitfield = False\<rparr>,
      \<lparr>r_name = ''x'', r_size = 5, r_type = ''raw'', r_size_field = [], r_num_elements = 0,
        r_is_bitfield = False\<rparr>,
      \<lparr>r_name = ''x'', r_size = 5, r_type = ''raw'', r_size_field = [], r_num_elements = 0,
        r_is_bitfield = False\<rparr>]"

definition ex_dup_payload :: "byte list" where
  "ex_dup_payload = [0x41, 0x42, 0x43, 1, 2, 3, 4, 5, 6, 7, 8, 9, 10]"

definition ex_dup_alt :: "drec list" where
  \<comment> \<open>the three occurrences of one byte\<close>
  "ex_dup_alt =
     [ex_rec ''x'' 1 (Sc (VStr (ustr_of ''A''))) ''char'',
      ex_rec ''x'' 1 (Sc (VStr (ustr_of ''B''))) ''char'',
      ex_rec ''x'' 1 (Sc (VStr (ustr_of ''43''))) ''raw'']"

definition ex_dup_recs :: "drec list" where
  \<comment> \<open>all five occurrences, as decoded from \<open>ex_dup_payload\<close>\<close>
  "ex_dup_recs =
     ex_dup_alt @
     [ex_rec ''x'' 5 (Sc (VStr (ustr_of ''0102030405''))) ''raw'',
      ex_rec ''x'' 5 (Sc (VStr (ustr_of ''060708090a''))) ''raw'']"

definition ex_zero_stats :: "drec list" where
  "ex_zero_stats = [ex_rec ''id'' 2 (Sc (VInt 0)) ''int'', ex_rec ''id'' 4 (Sc (VInt 0)) ''int'']"

definition ex_long_stats :: "drec list" where
  \<comment> \<open>a \<^verbatim>\<open>long\<close> field is decoded as hexadecimal text\<close>
  "ex_long_stats = [ex_rec ''t'' 2 (Sc (VStr (ustr_of ''00ff''))) ''long'',
                    ex_rec ''t'' 2 (Sc (VStr (ustr_of ''0012''))) ''long'']"

definition ex_flag_stats :: "drec list" where
  \<comment> \<open>two occurrences of a one-byte bitfield, bytes 5 and 7\<close>
  "ex_flag_stats =
     [\<lparr>field_name = ''fl'', size_v = Py 1, value_v = Li (map VInt [0, 0, 0, 0, 0, 1, 0, 1]),
        field_type = ''bitfield'', num_elements = None, size_defining_field = Some [],
        bitfields_count = Some 2, bit_vector = Some [0, 0, 0, 0, 0, 1, 0, 1]\<rparr>,
      \<lparr>field_name = ''fl'', size_v = Py 1, value_v = Li (map VInt [0, 0, 0, 0, 0, 1, 1, 1]),
        field_type = ''bitfield'', num_elements = None, size_defining_field = Some [],
        bitfields_count = Some 3, bit_vector = Some [0, 0, 0, 0, 0, 1, 1, 1]\<rparr>]"

definition ex_flag_schema :: "row list" where
  "ex_flag_schema = [\<lparr>r_name = ''fl'', r_size = 1, r_type = ''bitfield'', r_size_field = [],
                      r_num_elements = 0, r_is_bitfield = True\<rparr>]"

definition ex_huge_row :: row where
  "ex_huge_row = \<lparr>r_name = ''n'', r_size = 129, r_type = ''int'', r_size_field = [],
                  r_num_elements = 0, r_is_bitfield = False\<rparr>"

definition ex_huge_payload :: "byte list" where
  \<comment> \<open>129 bytes: the number \<open>2\<^sup>1\<^sup>0\<^sup>2\<^sup>4\<close>, which no double holds\<close>
  "ex_huge_payload = 1 # replicate 128 0"

definition ex_huge_stats :: "drec list" where
  "ex_huge_stats = [ex_rec ''n'' 129 (Sc (VInt (2 ^ 1024))) ''int'',
                    ex_rec ''n'' 129 (Sc (VInt 5)) ''int'']"

definition ex_neg_schema :: "row list" where
  \<comment> \<open>the rows of \<^verbatim>\<open>data 0 int\<close> and \<^verbatim>\<open>pad 9007199254740993 int\<close>\<close>
  "ex_neg_schema =
     [\<lparr>r_name = ''data'', r_size = 0, r_type = ''int'', r_size_field = [], r_num_elements = 0,
        r_is_bitfield = False\<rparr>,
      \<lparr>r_name = ''pad'', r_size = 9007199254740993, r_type = ''int'', r_size_field = [],
        r_num_elements = 0, r_is_bitfield = False\<rparr>]"

definition ex_neg_rec :: "string \<Rightarrow> pynum \<Rightarrow> int \<Rightarrow> drec" where
  "ex_neg_rec n s v = \<lparr>field_name = n, size_v = s, value_v = Sc (VInt v), field_type = ''int'',
                        num_elements = None, size_defining_field = Some [],
                        bitfields_count = None, bit_vector = None\<rparr>"

definition ex_neg_stats :: "drec list" where
  \<comment> \<open>the occurrences of \<^verbatim>\<open>data\<close> in a packet without payload and in one of one byte\<close>
  "ex_neg_stats = [ex_neg_rec ''data'' (Np (- 9007199254740993)) 0,
                   ex_neg_rec ''data'' (Np (- 9007199254740992)) 0]"







definition ex_big_rows :: "row list" where
  \<comment> \<open>four rows of declared size \<open>2\<^sup>6\<^sup>2\<close>\<close>
  "ex_big_rows = map (\<lambda>n. \<lparr>r_name = n, r_size = 4611686018427387904, r_type = ''int'',
                             r_size_field = [], r_num_elements = 0, r_is_bitfield = False\<rparr>)
                     [''p'', ''q'', ''r'', ''s'']"

definition ex_dyn_row :: row where
  "ex_dyn_row = \<lparr>r_name = ''name'', r_size = 0, r_type = ''char'', r_size_field = [],
                  r_num_elements = 0, r_is_bitfield = False\<rparr>"

definition ex_crc_row :: row where
  "ex_crc_row = \<lparr>r_name = ''crc'', r_size = 2, r_type = ''int'', r_size_field = [],
                  r_num_elements = 0, r_is_bitfield = False\<rparr>"

definition ex_dyn_arr :: row where
  \<comment> \<open>the row of \<^verbatim>\<open>ids 0 array int 0\<close>\<close>
  "ex_dyn_arr = \<lparr>r_name = ''ids'', r_size = 0, r_type = ''array of int'', r_size_field = [],
                  r_num_elements = 0, r_is_bitfield = False\<rparr>"

section \<open>Properties\<close>

subsection \<open>Doubles\<close>

lemma round_even_of_int: "round_even (of_int m) = m"
  by (simp add: round_even_def Let_def)

lemma to_dbl_int:
  assumes "\<bar>n\<bar> \<le> 9007199254740992"
  shows "to_dbl (of_int n) = Fin (of_int n)"
proof (cases "n = 0")
  case True
  then show ?thesis by (simp add: to_dbl_def)
next
  case False
  define a where "a = \<bar>n\<bar>"
  define e where "e = bitlen a - 1"
  from False have apos: "0 < a" by (simp add: a_def)
  have abs: "\<bar>of_int n :: rat\<bar> = of_int a" by (simp add: a_def)
  from apos have one: "(1 :: rat) \<le> of_int a" by (metis of_int_1_le_iff zless_imp_add1_zle add.left_neutral)
  then have il: "ilog2 (of_int a) = e" by (simp add: ilog2_def e_def)
  from apos have "1 \<le> bitlen a" by (simp add: bitlen_ge_iff_power)
  then have e0: "0 \<le> e" by (simp add: e_def)
  from assms have "a < 2 ^ nat 54" by (simp add: a_def)
  then have "bitlen a \<le> 54" by (simp add: bitlen_le_iff_power)
  then have e53: "e \<le> 53" by (simp add: e_def)
  from e0 have mx: "max e (- 1022) = e" by simp
  show ?thesis
  proof (cases "e \<le> 52")
    case True
    define c where "c = nat (52 - e)"
    have p: "pow2 (e - 52) = 1 / of_int (2 ^ c)"
      using True by (cases "e = 52") (simp_all add: pow2_def c_def)
    have q: "(of_int n :: rat) / pow2 (e - 52) = of_int (n * 2 ^ c)"
      by (simp add: p)
    have r: "of_int (n * 2 ^ c) * pow2 (e - 52) = (of_int n :: rat)"
      by (simp add: p)
    from False e53 True show ?thesis
      by (simp add: to_dbl_def abs il mx Let_def q r round_even_of_int del: of_int_mult of_int_power)
  next
    case False
    with e53 have "e = 53" by simp
    then have "bitlen a = 54" by (simp add: e_def)
    with bitlen_bounds [OF apos] have "2 ^ nat 53 \<le> a" by simp
    with assms have "a = 9007199254740992" by (simp add: a_def)
    then have "n = 9007199254740992 \<or> n = - 9007199254740992" by (auto simp: a_def)
    moreover have "to_dbl (of_int 9007199254740992) = Fin (of_int 9007199254740992)" by code_simp
    moreover have "to_dbl (of_int (- 9007199254740992)) = Fin (of_int (- 9007199254740992))" by code_simp
    ultimately show ?thesis by auto
  qed
qed

subsection \<open>Exceptions\<close>


lemma and_then_Inr: "and_then x f = Inr y \<longleftrightarrow> (\<exists>v. x = Inr v \<and> f v = Inr y)"
  by (cases x) (simp_all add: and_then_def)

lemma and_then_Inl: "and_then x f = Inl e \<longleftrightarrow> x = Inl e \<or> (\<exists>v. x = Inr v \<and> f v = Inl e)"
  by (cases x) (simp_all add: and_then_def)

subsection \<open>Decoder\<close>

lemma wrap64_id: "in64 n \<Longrightarrow> wrap64 n = n"
  by (simp add: wrap64_def in64_def)

lemma in64_wrap64: "in64 (wrap64 n)"
  by (simp add: wrap64_def in64_def)

lemma wrap64_add_left: "wrap64 (wrap64 a + b) = wrap64 (a + b)"
  by (simp add: wrap64_def mod_simps algebra_simps)

lemma wrap64_sub_left: "wrap64 (wrap64 a - b) = wrap64 (a - b)"
  by (simp add: wrap64_def mod_simps algebra_simps)

lemma wrap64_sub_right: "wrap64 (a - wrap64 b) = wrap64 (a - b)"
proof -
  have "(a - ((b + 9223372036854775808) mod 18446744073709551616 - 9223372036854775808)
          + 9223372036854775808) mod 18446744073709551616
        = (a + 18446744073709551616 - (b + 9223372036854775808) mod 18446744073709551616)
            mod 18446744073709551616"
    by (simp add: algebra_simps)
  also have "\<dots> = (a + 18446744073709551616 - (b + 9223372036854775808)) mod 18446744073709551616"
    by (simp only: mod_diff_right_eq)
  also have "\<dots> = (a - b + 9223372036854775808) mod 18446744073709551616"
    by (simp add: algebra_simps)
  finally show ?thesis by (simp add: wrap64_def)
qed

lemma np_op_error: "np_op f a b = Inl e \<Longrightarrow> e = OverflowError"
  by (auto simp: np_op_def split: pynum.splits if_splits)

lemma np_op_py: "np_op f (Py x) (Py y) = Inr (Py (f x y))"
  by (simp add: np_op_def)







lemma remaining_fold:
  "foldl (\<lambda>remaining s. if s \<noteq> 0 then Np (wrap64 (ival remaining + s)) else remaining) acc ss
     = (if filter (\<lambda>s. s \<noteq> 0) ss = [] then acc
        else Np (wrap64 (ival acc + sum_list (filter (\<lambda>s. s \<noteq> 0) ss))))"
proof (induction ss arbitrary: acc)
  case Nil
  show ?case by simp
next
  case (Cons s ss)
  show ?case
  proof (cases "s = 0")
    case True
    with Cons.IH [of acc] show ?thesis by simp
  next
    case False
    with Cons.IH [of "Np (wrap64 (ival acc + s))"] show ?thesis
      by (simp add: wrap64_add_left ac_simps)
  qed
qed

lemma remaining_after_eq:
  "remaining_after later =
     (if filter (\<lambda>s. s \<noteq> 0) (map r_size later) = [] then Py 0
      else Np (wrap64 (sum_list (filter (\<lambda>s. s \<noteq> 0) (map r_size later)))))"
  by (simp add: remaining_after_def remaining_fold)

lemma dyn_size_value:
  assumes "in64 plen" and "in64 (ival offset)" and "in64 (plen - ival offset)"
  shows "\<exists>d. dyn_size later plen offset = Inr d
            \<and> ival d = wrap64 (plen - ival offset - sum_list (filter (\<lambda>s. s \<noteq> 0) (map r_size later)))
            \<and> (d = Py (plen - ival offset)
                 \<longleftrightarrow> (\<exists>n. offset = Py n) \<and> filter (\<lambda>s. s \<noteq> 0) (map r_size later) = [])"
proof (cases offset)
  case (Py n)
  have z: "in64 0" by (simp add: in64_def)
  from assms Py show ?thesis
    by (simp add: dyn_size_def remaining_after_eq np_sub_def np_op_def and_then_def
          in64_wrap64 wrap64_sub_right wrap64_id)
next
  case (Np n)
  have z: "in64 0" by (simp add: in64_def)
  from assms Np z show ?thesis
    by (simp add: dyn_size_def remaining_after_eq np_sub_def np_op_def and_then_def
          in64_wrap64 wrap64_sub_left wrap64_sub_right wrap64_id)
qed

text \<open>
  Claim C1 as stated fails: \<^verbatim>\<open>remaining\<close> is accumulated from the sizes as NumPy 64-bit
  integers and wraps around. After a dynamic field, four rows of declared size \<open>2\<^sup>6\<^sup>2\<close>
  give \<^verbatim>\<open>remaining\<close> 0, and for a payload of three bytes the size resolves to 3, not to
  \<open>3 - 2\<^sup>6\<^sup>4\<close>.
\<close>

theorem C1_counterexample:
  "load_protocol_definitions
       [''5'', ''name 0 char'', ''p 4611686018427387904 int'', ''q 4611686018427387904 int'',
        ''r 4611686018427387904 int'', ''s 4611686018427387904 int''] Map.empty
     = Inr (ex_dyn_row # ex_big_rows)
   \<and> int64_sizes (ex_dyn_row # ex_big_rows)
   \<and> resolve_size ex_dyn_row ex_big_rows 3 (Py 0) Map.empty = Inr (Np 3)
   \<and> 3 - 0 - sum_list (filter (\<lambda>s. s \<noteq> 0) (map r_size ex_big_rows)) = - 18446744073709551613
   \<and> map_sum id (map (\<lambda>rec. (field_name rec, size_v rec)))
        (decode_packet (ex_dyn_row # ex_big_rows) [0x61, 0x62, 0x63]) = Inr [(''name'', Np 3)]"
  by code_simp

text \<open>
  Claim C1, amended. For a schema field of declared size 0, with the declared sizes, the
  payload length, the offset and their difference within 64 bits: the resolved size is
  the integer that \<^verbatim>\<open>int()\<close> makes of the value decoded earlier under the field's size
  field, when the size field is set, such a value exists and converts; in every other
  case it is the payload length minus the offset minus the sum of the non-zero declared
  sizes of the rows strictly after the field, reduced to 64 bits with wrap-around, hence
  that number itself whenever it fits 64 bits; it is a Python integer, and then exactly
  the payload length minus the offset, only when the offset is one and no non-zero size
  follows.
\<close>

theorem C1_dynamic_size:
  assumes "r_size r = 0" and "int64_sizes later"
    and "in64 plen" and "in64 (ival offset)" and "in64 (plen - ival offset)"
  shows "(r_size_field r \<noteq> [] \<and> packet_data (r_size_field r) = Some cand \<and> py_int cand = Some n
            \<longrightarrow> resolve_size r later plen offset packet_data = Inr (Py n))
       \<and> (\<not> (r_size_field r \<noteq> [] \<and> (\<exists>c m. packet_data (r_size_field r) = Some c \<and> py_int c = Some m))
            \<longrightarrow> (\<exists>d. resolve_size r later plen offset packet_data = Inr d
                   \<and> ival d = wrap64 (plen - ival offset
                                        - sum_list (filter (\<lambda>s. s \<noteq> 0) (map r_size later)))
                   \<and> (in64 (plen - ival offset - sum_list (filter (\<lambda>s. s \<noteq> 0) (map r_size later)))
                        \<longrightarrow> ival d = plen - ival offset
                                        - sum_list (filter (\<lambda>s. s \<noteq> 0) (map r_size later)))
                   \<and> (d = Py (plen - ival offset)
                        \<longleftrightarrow> (\<exists>k. offset = Py k) \<and> filter (\<lambda>s. s \<noteq> 0) (map r_size later) = [])))"
proof -
  from dyn_size_value [OF assms(3,4,5), of later] obtain d where
    d: "dyn_size later plen offset = Inr d"
    and v: "ival d = wrap64 (plen - ival offset - sum_list (filter (\<lambda>s. s \<noteq> 0) (map r_size later)))"
    and k: "d = Py (plen - ival offset)
              \<longleftrightarrow> (\<exists>n. offset = Py n) \<and> filter (\<lambda>s. s \<noteq> 0) (map r_size later) = []"
    by blast
  have a: "r_size_field r \<noteq> [] \<and> packet_data (r_size_field r) = Some cand \<and> py_int cand = Some n
            \<longrightarrow> resolve_size r later plen offset packet_data = Inr (Py n)"
    using assms(1) d by (simp add: resolve_size_def and_then_def)
  have b: "resolve_size r later plen offset packet_data = Inr d"
    if "\<not> (r_size_field r \<noteq> [] \<and> (\<exists>c m. packet_data (r_size_field r) = Some c \<and> py_int c = Some m))"
    using assms(1) d that by (auto simp: resolve_size_def and_then_def split: option.splits)
  have c: "in64 (plen - ival offset - sum_list (filter (\<lambda>s. s \<noteq> 0) (map r_size later)))
             \<longrightarrow> ival d = plen - ival offset - sum_list (filter (\<lambda>s. s \<noteq> 0) (map r_size later))"
    using v by (simp add: wrap64_id)
  from a b v c k show ?thesis by blast
qed

theorem C1_dynamic_size_witness:
  "resolve_size
     \<lparr>r_name = ''name'', r_size = 0, r_type = ''char'', r_size_field = ''len'',
       r_num_elements = 0, r_is_bitfield = False\<rparr>
     [] 10 (Py 5) [''len'' \<mapsto> Sc (VStr [1635])] = Inr (Py 3)
   \<and> map_sum id ival (resolve_size ex_dyn_row [ex_crc_row] 10 (Py 5) Map.empty) = Inr 3"
proof -
  have in1: "in64 10" "in64 (ival (Py 5))" "in64 (10 - ival (Py 5))"
    by (simp_all add: in64_def)
  have s0: "int64_sizes []" "int64_sizes [ex_crc_row]"
    by (simp_all add: int64_sizes_def in64_def ex_crc_row_def)
  have conv: "py_int (Sc (VStr [1635])) = Some 3" by code_simp
  note a = C1_dynamic_size [where r = "\<lparr>r_name = ''name'', r_size = 0, r_type = ''char'',
        r_size_field = ''len'', r_num_elements = 0, r_is_bitfield = False\<rparr>"
      and later = "[]" and plen = 10 and offset = "Py 5"
      and packet_data = "[''len'' \<mapsto> Sc (VStr [1635])]" and cand = "Sc (VStr [1635])" and n = 3,
      OF _ s0(1) in1, THEN conjunct1, THEN mp]
  have first: "resolve_size
     \<lparr>r_name = ''name'', r_size = 0, r_type = ''char'', r_size_field = ''len'',
       r_num_elements = 0, r_is_bitfield = False\<rparr>
     [] 10 (Py 5) [''len'' \<mapsto> Sc (VStr [1635])] = Inr (Py 3)"
    using conv by (intro a) simp_all
  have z: "r_size ex_dyn_row = 0" by (simp add: ex_dyn_row_def)
  have nosf: "\<not> (r_size_field ex_dyn_row \<noteq> []
      \<and> (\<exists>c m. Map.empty (r_size_field ex_dyn_row) = Some c \<and> py_int c = Some m))"
    by simp
  from C1_dynamic_size [where r = ex_dyn_row and later = "[ex_crc_row]" and plen = 10
      and offset = "Py 5" and packet_data = Map.empty, OF z s0(2) in1, THEN conjunct2, THEN mp, OF nosf]
  obtain d where d: "resolve_size ex_dyn_row [ex_crc_row] 10 (Py 5) Map.empty = Inr d"
    and fits: "in64 (10 - ival (Py 5) - sum_list (filter (\<lambda>s. s \<noteq> 0) (map r_size [ex_crc_row])))
        \<longrightarrow> ival d = 10 - ival (Py 5) - sum_list (filter (\<lambda>s. s \<noteq> 0) (map r_size [ex_crc_row]))"
    by blast
  have "in64 (10 - ival (Py 5) - sum_list (filter (\<lambda>s. s \<noteq> 0) (map r_size [ex_crc_row])))"
    by (simp add: in64_def ex_crc_row_def)
  with fits have "ival d = 3" by (simp add: ex_crc_row_def)
  with d have second: "map_sum id ival (resolve_size ex_dyn_row [ex_crc_row] 10 (Py 5) Map.empty) = Inr 3"
    by simp
  from first second show ?thesis by (intro conjI)
qed

lemma decode_elems_length:
  "decode_elems base payload offset esz ixs = Inr vs \<Longrightarrow> length vs = length ixs"
  by (induction ixs arbitrary: vs) (auto simp: and_then_Inr)

lemma decode_elem_error:
  "decode_elem base chunk = Inl e \<Longrightarrow>
     e = StructError \<and> (py_lower base = ''float'' \<or> py_lower base = ''double'')"
  by (auto simp: decode_elem_def unpack_f_def unpack_d_def split: if_splits)

lemma elem_chunk_error: "elem_chunk payload offset esz i = Inl e \<Longrightarrow> e = OverflowError"
  by (auto simp: elem_chunk_def and_then_Inl np_add_def np_mul_def dest: np_op_error)

lemma decode_elems_error:
  "decode_elems base payload offset esz ixs = Inl e \<Longrightarrow> e = StructError \<or> e = OverflowError"
  by (induction ixs) (auto simp: and_then_Inl dest: decode_elem_error elem_chunk_error)

lemma elem_chunk_py:
  "elem_chunk payload (Py off) (Py esz) i
     = Inr (py_slice payload (off + int i * esz) (off + int i * esz + esz))"
  by (simp add: elem_chunk_def np_mul_def np_add_def np_op_def and_then_def)

lemma decode_elems_py_error:
  "decode_elems base payload (Py off) (Py esz) ixs = Inl e \<Longrightarrow> e = StructError"
  by (induction ixs) (auto simp: and_then_Inl elem_chunk_py dest: decode_elem_error)

lemma decode_elems_total:
  "py_lower base \<noteq> ''float'' \<Longrightarrow> py_lower base \<noteq> ''double'' \<Longrightarrow>
     \<exists>vs. decode_elems base payload (Py off) (Py esz) ixs = Inr vs"
proof (induction ixs)
  case Nil
  show ?case by simp
next
  case (Cons i ixs)
  from Cons.prems have
    "\<exists>v. decode_elem base (py_slice payload (off + int i * esz) (off + int i * esz + esz)) = Inr v"
    by (simp add: decode_elem_def)
  then obtain v where
    "decode_elem base (py_slice payload (off + int i * esz) (off + int i * esz + esz)) = Inr v"
    by blast
  moreover from Cons obtain vs where "decode_elems base payload (Py off) (Py esz) ixs = Inr vs"
    by blast
  ultimately show ?case by (simp add: elem_chunk_py and_then_def)
qed

lemma decode_elems_unpack:
  assumes "(py_lower base = ''float'' \<and> k = 4) \<or> (py_lower base = ''double'' \<and> k = 8)"
  shows "(\<exists>vs. decode_elems base payload (Py off) (Py esz) ixs = Inr vs) \<longleftrightarrow>
         (\<forall>i \<in> set ixs. length (py_slice payload (off + int i * esz) (off + int i * esz + esz)) = k)"
proof (induction ixs)
  case Nil
  show ?case by simp
next
  case (Cons i ixs)
  let ?chunk = "py_slice payload (off + int i * esz) (off + int i * esz + esz)"
  have one: "(\<exists>v. decode_elem base ?chunk = Inr v) \<longleftrightarrow> length ?chunk = k"
    using assms by (auto simp: decode_elem_def unpack_f_def unpack_d_def)
  show ?case
  proof (cases "decode_elem base ?chunk")
    case (Inl e)
    with one show ?thesis by (auto simp: elem_chunk_py and_then_def)
  next
    case (Inr v)
    with one have "length ?chunk = k" by auto
    with Inr Cons.IH show ?thesis by (auto simp: elem_chunk_py and_then_def split: sum.splits)
  qed
qed

lemma np_op_np_right: "np_op f a (Np m) = Inr x \<Longrightarrow> \<exists>k. x = Np k"
  by (cases a) (auto simp: np_op_def split: if_splits)

lemma decode_array_py:
  "r_num_elements r \<noteq> 0 \<Longrightarrow>
     decode_array payload r (Py off) (Py f)
       = decode_elems (drop 9 (r_type r)) payload (Py off) (Py (f div r_num_elements r))
           [0..<nat (r_num_elements r)]"
  by (simp add: decode_array_def floordiv_def and_then_def Let_def)

text \<open>
  Claim C10 as stated fails: with a positive element count, array decoding is not total.
  A \<^verbatim>\<open>float\<close> element is read by \<^verbatim>\<open>struct.unpack('!f', chunk)\<close>, which raises unless
  the chunk holds exactly four bytes; the line \<^verbatim>\<open>arr 8 array float 4\<close> compiles, gives two
  bytes per element, and decoding an eight-byte payload raises.
\<close>

theorem C10_counterexample:
  "load_protocol_definitions [''1'', ''arr 8 array float 4''] Map.empty = Inr [ex_float_arr]
   \<and> 0 < r_num_elements ex_float_arr
   \<and> decode_array [0, 0, 0, 0, 0, 0, 0, 0] ex_float_arr (Py 0) (Py 8) = Inl StructError
   \<and> decode_packet [ex_float_arr] [0, 0, 0, 0, 0, 0, 0, 0] = Inl StructError"
  by code_simp

text \<open>
  Claim C10, amended. The element size is the resolved size integer-divided by the element
  count, with no guard. With a positive count, array decoding never raises
  ZeroDivisionError and, whenever it returns, it returns exactly that many values; when
  offset and resolved size are Python integers it always returns for a base type other
  than \<^verbatim>\<open>float\<close> and \<^verbatim>\<open>double\<close>, and for \<^verbatim>\<open>float\<close> (\<^verbatim>\<open>double\<close>) it returns exactly when
  every element chunk holds four (eight) bytes, raising \<^verbatim>\<open>struct.error\<close> otherwise. The
  schema compiler accepts a five-token array line with count 0, and for such a row array
  decoding divides by zero: a resolved size that is a Python integer (as every non-zero
  declared size) raises ZeroDivisionError; one that is a NumPy integer (as a dynamic size
  without size field before a row of non-zero size) gives the quotient 0 and the empty
  list of values.
\<close>

theorem C10_array_decode:
  "(0 < r_num_elements r \<longrightarrow>
      (\<forall>vals. decode_array payload r offset fsize = Inr vals \<longrightarrow> int (length vals) = r_num_elements r)
    \<and> decode_array payload r offset fsize \<noteq> Inl ZeroDivisionError
    \<and> (\<forall>e. decode_array payload r (Py off) (Py f) = Inl e \<longrightarrow> e = StructError)
    \<and> (py_lower (drop 9 (r_type r)) \<noteq> ''float'' \<and> py_lower (drop 9 (r_type r)) \<noteq> ''double''
         \<longrightarrow> (\<exists>vals. decode_array payload r (Py off) (Py f) = Inr vals))
    \<and> ((py_lower (drop 9 (r_type r)) = ''float'' \<and> k = 4) \<or> (py_lower (drop 9 (r_type r)) = ''double'' \<and> k = 8)
         \<longrightarrow> ((\<exists>vals. decode_array payload r (Py off) (Py f) = Inr vals) \<longleftrightarrow>
              (\<forall>i < nat (r_num_elements r).
                 length (py_slice payload (off + int i * (f div r_num_elements r))
                          (off + int i * (f div r_num_elements r) + f div r_num_elements r)) = k))))
   \<and> (int_tok sz = Inr n \<and> cts base = None \<longrightarrow>
        compile_line cts [name, sz, ''array'', base, ''0'']
          = Inr [\<lparr>r_name = name, r_size = n, r_type = ''array of '' @ base, r_size_field = [],
                  r_num_elements = 0, r_is_bitfield = False\<rparr>])
   \<and> (r_num_elements r = 0 \<longrightarrow>
        decode_array payload r offset (Py f) = Inl ZeroDivisionError
      \<and> decode_array payload r offset (Np f) = Inr [])
   \<and> (r_num_elements r = 0 \<and> startswith (r_type r) ''array of '' \<longrightarrow>
        decode_field payload r offset (Py f) stop = Inl ZeroDivisionError
      \<and> map_sum id value_v (decode_field payload r offset (Np f) stop) = Inr (Li []))
   \<and> (r_size r \<noteq> 0 \<longrightarrow> resolve_size r later plen offset pd = Inr (Py (r_size r)))
   \<and> (r_size r = 0 \<and> r_size_field r = [] \<and> (\<exists>r' \<in> set later. r_size r' \<noteq> 0)
        \<and> resolve_size r later plen offset pd = Inr fsize
      \<longrightarrow> (\<exists>m. fsize = Np m))"
proof (intro conjI impI allI)
  fix vals
  assume "0 < r_num_elements r" "decode_array payload r offset fsize = Inr vals"
  then show "int (length vals) = r_num_elements r"
    by (auto simp: decode_array_def Let_def and_then_Inr dest: decode_elems_length)
next
  assume "0 < r_num_elements r"
  then show "decode_array payload r offset fsize \<noteq> Inl ZeroDivisionError"
    by (auto simp: decode_array_def Let_def and_then_Inl floordiv_def
             split: pynum.splits if_splits dest: decode_elems_error)
next
  fix e
  assume "0 < r_num_elements r" "decode_array payload r (Py off) (Py f) = Inl e"
  then show "e = StructError"
    by (auto simp: decode_array_py dest: decode_elems_py_error)
next
  assume "0 < r_num_elements r"
    and "py_lower (drop 9 (r_type r)) \<noteq> ''float'' \<and> py_lower (drop 9 (r_type r)) \<noteq> ''double''"
  then show "\<exists>vals. decode_array payload r (Py off) (Py f) = Inr vals"
    by (simp add: decode_array_py decode_elems_total)
next
  assume pos: "0 < r_num_elements r"
    and b: "(py_lower (drop 9 (r_type r)) = ''float'' \<and> k = 4) \<or> (py_lower (drop 9 (r_type r)) = ''double'' \<and> k = 8)"
  from pos have "decode_array payload r (Py off) (Py f)
      = decode_elems (drop 9 (r_type r)) payload (Py off) (Py (f div r_num_elements r)) [0..<nat (r_num_elements r)]"
    by (simp add: decode_array_py)
  with decode_elems_unpack [OF b, of payload off "f div r_num_elements r" "[0..<nat (r_num_elements r)]"]
  show "(\<exists>vals. decode_array payload r (Py off) (Py f) = Inr vals) \<longleftrightarrow>
              (\<forall>i < nat (r_num_elements r).
                 length (py_slice payload (off + int i * (f div r_num_elements r))
                          (off + int i * (f div r_num_elements r) + f div r_num_elements r)) = k)"
    by (simp add: Ball_def)
next
  assume "int_tok sz = Inr n \<and> cts base = None"
  moreover have "int_tok ''0'' = Inr 0" by code_simp
  moreover have "py_lower ''array'' = ''array''" by code_simp
  ultimately show "compile_line cts [name, sz, ''array'', base, ''0'']
          = Inr [\<lparr>r_name = name, r_size = n, r_type = ''array of '' @ base, r_size_field = [],
                  r_num_elements = 0, r_is_bitfield = False\<rparr>]"
    by (simp add: compile_line_def)
next
  assume "r_num_elements r = 0"
  then show "decode_array payload r offset (Py f) = Inl ZeroDivisionError"
    by (simp add: decode_array_def floordiv_def and_then_def)
next
  assume "r_num_elements r = 0"
  then show "decode_array payload r offset (Np f) = Inr []"
    by (simp add: decode_array_def floordiv_def and_then_def in64_def)
next
  assume "r_num_elements r = 0 \<and> startswith (r_type r) ''array of ''"
  then show "decode_field payload r offset (Py f) stop = Inl ZeroDivisionError"
    by (simp add: decode_field_def decode_array_def floordiv_def and_then_def)
next
  assume "r_num_elements r = 0 \<and> startswith (r_type r) ''array of ''"
  then show "map_sum id value_v (decode_field payload r offset (Np f) stop) = Inr (Li [])"
    by (simp add: decode_field_def decode_array_def floordiv_def and_then_def in64_def)
next
  assume "r_size r \<noteq> 0"
  then show "resolve_size r later plen offset pd = Inr (Py (r_size r))"
    by (simp add: resolve_size_def)
next
  assume h: "r_size r = 0 \<and> r_size_field r = [] \<and> (\<exists>r' \<in> set later. r_size r' \<noteq> 0)
        \<and> resolve_size r later plen offset pd = Inr fsize"
  then have "filter (\<lambda>s. s \<noteq> 0) (map r_size later) \<noteq> []"
    by (auto simp: filter_empty_conv)
  then obtain m where "remaining_after later = Np m"
    by (simp add: remaining_after_eq)
  moreover from h have "dyn_size later plen offset = Inr fsize"
    by (auto simp: resolve_size_def and_then_Inr)
  ultimately obtain t where "np_op (\<lambda>x y. x - y) t (Np m) = Inr fsize"
    by (auto simp: dyn_size_def and_then_Inr np_sub_def)
  then show "\<exists>m. fsize = Np m" by (rule np_op_np_right)
qed

theorem C10_array_decode_witness:
  "decode_array [0, 1, 0, 2, 0, 3, 0, 4] ex_int_arr (Py 0) (Py 8) = Inr [VInt 1, VInt 2, VInt 3, VInt 4]
   \<and> int (length [VInt 1, VInt 2, VInt 3, VInt 4]) = r_num_elements ex_int_arr
   \<and> (\<exists>vals. decode_array [0, 0, 0, 0, 0, 0, 0, 0] (ex_float_arr\<lparr>r_size := 16\<rparr>) (Py 0) (Py 16) = Inr vals) = False
   \<and> compile_line Map.empty [''ids'', ''8'', ''array'', ''int'', ''0''] = Inr [ex_zero_arr]
   \<and> decode_array [0, 1, 0, 2, 0, 3, 0, 4] ex_zero_arr (Py 0) (Py 8) = Inl ZeroDivisionError
   \<and> decode_field [0, 1, 0, 2, 0, 3, 0, 4] ex_zero_arr (Py 0) (Py 8) (Py 8) = Inl ZeroDivisionError
   \<and> decode_packet [ex_zero_arr] [0, 1, 0, 2, 0, 3, 0, 4] = Inl ZeroDivisionError
   \<and> (\<exists>m. resolve_size ex_dyn_arr [ex_crc_row] 4 (Py 0) Map.empty = Inr (Np m))
   \<and> map_sum id (map (\<lambda>rec. (field_name rec, value_v rec))) (decode_packet [ex_dyn_arr, ex_crc_row] [1, 2, 3, 4])
       = Inr [(''ids'', Li []), (''crc'', Sc (VInt 772))]"
proof -
  have pos: "0 < r_num_elements ex_int_arr" by (simp add: ex_int_arr_def)
  have run: "decode_array [0, 1, 0, 2, 0, 3, 0, 4] ex_int_arr (Py 0) (Py 8) = Inr [VInt 1, VInt 2, VInt 3, VInt 4]"
    by code_simp
  note a = C10_array_decode [where r = ex_int_arr and payload = "[0, 1, 0, 2, 0, 3, 0, 4]"
      and offset = "Py 0" and fsize = "Py 8" and sz = "''8''" and n = 8 and cts = Map.empty
      and base = "''int''" and name = "''ids''" and k = 4]
  note len = a [THEN conjunct1, THEN mp, OF pos, THEN conjunct1, THEN spec, THEN mp, OF run]
  have tok: "int_tok ''8'' = Inr 8 \<and> Map.empty ''int'' = (None :: custom_type option)" by code_simp
  note comp0 = a [THEN conjunct2, THEN conjunct1, THEN mp, OF tok]
  have comp: "compile_line Map.empty [''ids'', ''8'', ''array'', ''int'', ''0''] = Inr [ex_zero_arr]"
    unfolding ex_zero_arr_def using comp0 by simp
  note z = C10_array_decode [where r = ex_zero_arr and payload = "[0, 1, 0, 2, 0, 3, 0, 4]"
      and offset = "Py 0" and f = 8 and stop = "Py 8"]
  have zero: "r_num_elements ex_zero_arr = 0" by (simp add: ex_zero_arr_def)
  have zero': "r_num_elements ex_zero_arr = 0 \<and> startswith (r_type ex_zero_arr) ''array of ''"
    by (simp add: ex_zero_arr_def startswith_def)
  note div0 = z [THEN conjunct2, THEN conjunct2, THEN conjunct1, THEN mp, OF zero, THEN conjunct1]
  note div0' = z [THEN conjunct2, THEN conjunct2, THEN conjunct2, THEN conjunct1, THEN mp, OF zero',
      THEN conjunct1]
  have pk: "decode_packet [ex_zero_arr] [0, 1, 0, 2, 0, 3, 0, 4] = Inl ZeroDivisionError"
    by code_simp
  note f = C10_array_decode [where r = "ex_float_arr\<lparr>r_size := 16\<rparr>" and payload = "[0, 0, 0, 0, 0, 0, 0, 0]"
      and off = 0 and f = 16 and k = 4]
  have fpos: "0 < r_num_elements (ex_float_arr\<lparr>r_size := 16\<rparr>)" by (simp add: ex_float_arr_def)
  have fl: "(py_lower (drop 9 (r_type (ex_float_arr\<lparr>r_size := 16\<rparr>))) = ''float'' \<and> (4 :: nat) = 4)
      \<or> (py_lower (drop 9 (r_type (ex_float_arr\<lparr>r_size := 16\<rparr>))) = ''double'' \<and> (4 :: nat) = 8)"
    by code_simp
  note fiff = f [THEN conjunct1, THEN mp, OF fpos, THEN conjunct2, THEN conjunct2, THEN conjunct2,
      THEN conjunct2, THEN mp, OF fl]
  have third: "length (py_slice [0, 0, 0, 0, 0, 0, 0, 0 :: byte]
         (0 + int (2 :: nat) * (16 div r_num_elements (ex_float_arr\<lparr>r_size := 16\<rparr>)))
         (0 + int (2 :: nat) * (16 div r_num_elements (ex_float_arr\<lparr>r_size := 16\<rparr>))
            + 16 div r_num_elements (ex_float_arr\<lparr>r_size := 16\<rparr>))) \<noteq> 4"
    by (simp add: ex_float_arr_def py_slice_def)
  have two: "(2 :: nat) < nat (r_num_elements (ex_float_arr\<lparr>r_size := 16\<rparr>))"
    by (simp add: ex_float_arr_def)
  from third two have short: "\<not> (\<forall>i < nat (r_num_elements (ex_float_arr\<lparr>r_size := 16\<rparr>)).
      length (py_slice [0, 0, 0, 0, 0, 0, 0, 0 :: byte]
         (0 + int i * (16 div r_num_elements (ex_float_arr\<lparr>r_size := 16\<rparr>)))
         (0 + int i * (16 div r_num_elements (ex_float_arr\<lparr>r_size := 16\<rparr>))
            + 16 div r_num_elements (ex_float_arr\<lparr>r_size := 16\<rparr>))) = 4)"
    by blast
  from fiff short have nofloat:
    "(\<exists>vals. decode_array [0, 0, 0, 0, 0, 0, 0, 0] (ex_float_arr\<lparr>r_size := 16\<rparr>) (Py 0) (Py 16) = Inr vals) = False"
    by simp
  have "\<not> isl (resolve_size ex_dyn_arr [ex_crc_row] 4 (Py 0) Map.empty)" by code_simp
  then obtain fs where fs: "resolve_size ex_dyn_arr [ex_crc_row] 4 (Py 0) Map.empty = Inr fs"
    by (cases "resolve_size ex_dyn_arr [ex_crc_row] 4 (Py 0) Map.empty") auto
  have dynpre: "r_size ex_dyn_arr = 0 \<and> r_size_field ex_dyn_arr = []
      \<and> (\<exists>r' \<in> set [ex_crc_row]. r_size r' \<noteq> 0)
      \<and> resolve_size ex_dyn_arr [ex_crc_row] 4 (Py 0) Map.empty = Inr fs"
    using fs by (simp add: ex_dyn_arr_def ex_crc_row_def)
  from C10_array_decode [where r = ex_dyn_arr and later = "[ex_crc_row]" and plen = 4
      and offset = "Py 0" and pd = Map.empty and fsize = fs,
      THEN conjunct2, THEN conjunct2, THEN conjunct2, THEN conjunct2, THEN conjunct2, THEN mp, OF dynpre]
  obtain m where "fs = Np m" by blast
  with fs have np: "\<exists>m. resolve_size ex_dyn_arr [ex_crc_row] 4 (Py 0) Map.empty = Inr (Np m)"
    by blast
  have whole: "map_sum id (map (\<lambda>rec. (field_name rec, value_v rec)))
        (decode_packet [ex_dyn_arr, ex_crc_row] [1, 2, 3, 4])
       = Inr [(''ids'', Li []), (''crc'', Sc (VInt 772))]"
    by code_simp
  from run len nofloat comp div0 div0' pk np whole show ?thesis by (intro conjI)
qed

subsection \<open>Synthesizer\<close>

lemma expand_fixed_array_frame:
  "expand_fixed_array proto_row alt_stats mn mx d = Inr d' \<Longrightarrow>
     is_dynamic_array d' = is_dynamic_array d \<and> dpi_field_type d' = dpi_field_type d
     \<and> dpi_bitfields_count d' = dpi_bitfields_count d
     \<and> dpi_size_defining_field d' = dpi_size_defining_field d"
  by (auto simp: expand_fixed_array_def Let_def split: if_splits sum.splits)

lemma round_null_frame:
  "is_dynamic_array (round_dpi (null_non_numeric d)) = is_dynamic_array d"
  "dpi_field_type (round_dpi (null_non_numeric d)) = dpi_field_type d"
  "dpi_bitfields_count (round_dpi (null_non_numeric d)) = dpi_bitfields_count d"
  "dpi_size_defining_field (round_dpi (null_non_numeric d)) = dpi_size_defining_field d"
  by (simp_all add: round_dpi_def null_non_numeric_def)

lemma synth_field_frame:
  assumes "synth_field protocol_df fname stats alt_stats p = Inr d"
  shows "\<exists>F. extract_aggregated_features alt_stats = Inr F
             \<and> is_dynamic_array d = is_dynamic_rule protocol_df fname F p"
    and "dpi_field_type d = (if aggregated_field_type stats \<noteq> ''bitfield''
                            then aggregated_field_type stats else p_field_type p)"
    and "bit_count_rule (aggregated_field_type stats) alt_stats p = Inr (dpi_bitfields_count d)"
    and "dpi_size_defining_field d = size_def_pred protocol_df fname"
proof -
  from assms obtain F where F: "extract_aggregated_features alt_stats = Inr F"
    by (cases "extract_aggregated_features alt_stats") (simp_all add: synth_field_def and_then_def)
  from assms F obtain bc proto_row d' where
    bc: "bit_count_rule (aggregated_field_type stats) alt_stats p = Inr bc"
    and ex: "expand_fixed_array proto_row alt_stats (nan_to (p_min_size p) (feat_min_size F))
               (nan_to (p_max_size p) (feat_max_size F))
               \<lparr>is_dynamic_array = is_dynamic_rule protocol_df fname F p,
                min_size = Num (nan_to (p_min_size p) (feat_min_size F)),
                max_size = Num (nan_to (p_max_size p) (feat_max_size F)),
                min_value = Some (Num (nan_to (p_min_value p) (feat_min_value F))),
                max_value = Some (Num (nan_to (p_max_value p) (feat_max_value F))),
                dpi_size_defining_field = size_def_pred protocol_df fname,
                dpi_field_type = (if aggregated_field_type stats \<noteq> ''bitfield''
                                  then aggregated_field_type stats else p_field_type p),
                dpi_bitfields_count = bc\<rparr> = Inr d'"
    and d: "d = round_dpi (null_non_numeric d')"
    by (auto simp: synth_field_def Let_def and_then_def split: sum.splits option.splits)
  note fr = expand_fixed_array_frame [OF ex]
  from fr F show "\<exists>F. extract_aggregated_features alt_stats = Inr F
             \<and> is_dynamic_array d = is_dynamic_rule protocol_df fname F p"
    by (simp add: d round_null_frame)
  from fr show "dpi_field_type d = (if aggregated_field_type stats \<noteq> ''bitfield''
                            then aggregated_field_type stats else p_field_type p)"
    by (simp add: d round_null_frame)
  from fr bc show "bit_count_rule (aggregated_field_type stats) alt_stats p = Inr (dpi_bitfields_count d)"
    by (simp add: d round_null_frame)
  from fr show "dpi_size_defining_field d = size_def_pred protocol_df fname"
    by (simp add: d round_null_frame)
qed

lemma mode0_in_set: "xs \<noteq> [] \<Longrightarrow> mode0 xs \<in> set xs"
proof -
  have "foldl (\<lambda>best x. if count_of best ys < count_of x ys
                          \<or> (count_of x ys = count_of best ys \<and> lex_lt x best)
                       then x else best) h t \<in> set (h # t)" for h t and ys :: "string list"
    by (induction t arbitrary: h) auto
  from this [of xs "hd xs" "tl xs"] show "xs \<noteq> [] \<Longrightarrow> mode0 xs \<in> set xs"
    by (simp add: mode0_def)
qed

lemma mode0_const:
  assumes "xs \<noteq> []" and "\<forall>x \<in> set xs. x = t"
  shows "mode0 xs = t"
  using mode0_in_set [OF assms(1)] assms(2) by blast

lemma sequence_map_Inr:
  "sequence (map f xs) = Inr ys \<longleftrightarrow> map f xs = map Inr ys"
proof (induction xs arbitrary: ys)
  case Nil
  show ?case by auto
next
  case (Cons x xs)
  show ?case
  proof (cases "f x")
    case (Inl e)
    then show ?thesis by auto
  next
    case (Inr v)
    show ?thesis
    proof (cases "sequence (map f xs)")
      case (Inl e)
      have "\<And>zs. map f xs \<noteq> map Inr zs"
      proof
        fix zs
        assume "map f xs = map Inr zs"
        with Cons.IH [of zs] Inl show False by simp
      qed
      with Inl Inr show ?thesis by (auto simp: map_eq_Cons_conv)
    next
      case vs: (Inr vs)
      with Cons.IH [of vs] have "map f xs = map Inr vs" by simp
      with vs Inr show ?thesis by (auto simp: map_eq_Cons_conv)
    qed
  qed
qed

lemma float_of_int_Inr: "float_of_int n = Inr x \<Longrightarrow> x = to_dbl (of_int n) \<and> x \<noteq> NaN"
  by (auto simp: float_of_int_def split: dbl.splits)

lemma size_array_Inr:
  assumes "size_array stats = Inr sizes"
  shows "sizes = map (\<lambda>s. to_dbl (of_int (ival (size_v s)))) stats"
proof -
  from assms have "map (\<lambda>s. float_of_int (ival (size_v s))) stats = map Inr sizes"
    by (simp add: size_array_def sequence_map_Inr)
  then show ?thesis
  proof (induction stats arbitrary: sizes)
    case Nil
    then show ?case by simp
  next
    case (Cons s stats)
    then show ?case by (auto simp: map_eq_Cons_conv dest: float_of_int_Inr)
  qed
qed

lemma size_array_small:
  assumes "\<forall>s \<in> set stats. \<bar>ival (size_v s)\<bar> \<le> 9007199254740992"
  shows "size_array stats = Inr (map (\<lambda>n. Fin (of_int n)) (map (\<lambda>s. ival (size_v s)) stats))"
proof -
  have "map (\<lambda>s. float_of_int (ival (size_v s))) stats
          = map Inr (map (\<lambda>n. Fin (of_int n)) (map (\<lambda>s. ival (size_v s)) stats))"
    using assms by (induction stats) (simp_all add: float_of_int_def to_dbl_int)
  then show ?thesis by (simp add: size_array_def sequence_map_Inr)
qed

lemma fold_min_sizes:
  "foldl (\<lambda>m x. if dlt x m then x else m) (Fin (of_int a)) (map (\<lambda>n. Fin (of_int n)) xs)
     = Fin (of_int (Min (set (a # xs))))"
proof (induction xs arbitrary: a)
  case Nil
  show ?case by simp
next
  case (Cons x xs)
  have "Min (set (min x a # xs)) = Min (set (a # x # xs))"
    by (cases "xs = []") (simp_all add: ac_simps)
  moreover have "(if dlt (Fin (of_int x)) (Fin (of_int a)) then Fin (of_int x) else Fin (of_int a))
        = Fin (of_int (min x a))"
    by (simp add: min_def)
  ultimately show ?case using Cons.IH [of "min x a"] by simp
qed

lemma fold_max_sizes:
  "foldl (\<lambda>m x. if dlt m x then x else m) (Fin (of_int a)) (map (\<lambda>n. Fin (of_int n)) xs)
     = Fin (of_int (Max (set (a # xs))))"
proof (induction xs arbitrary: a)
  case Nil
  show ?case by simp
next
  case (Cons x xs)
  have "Max (set (max a x # xs)) = Max (set (a # x # xs))"
    by (cases "xs = []") (simp_all add: ac_simps)
  moreover have "(if dlt (Fin (of_int a)) (Fin (of_int x)) then Fin (of_int x) else Fin (of_int a))
        = Fin (of_int (max a x))"
    by (simp add: max_def)
  ultimately show ?case using Cons.IH [of "max a x"] by simp
qed

lemma np_min_ints:
  "ns \<noteq> [] \<Longrightarrow> np_min (map (\<lambda>n. Fin (of_int n)) ns) = Fin (of_int (Min (set ns)))"
proof -
  assume "ns \<noteq> []"
  then obtain a xs where ns: "ns = a # xs" by (cases ns) auto
  have nonan: "NaN \<notin> set (map (\<lambda>n. Fin (of_int n)) (a # xs))" by auto
  show ?thesis
    unfolding ns np_min_def using nonan
    by (simp only: list.map if_False list.sel fold_min_sizes)
qed

lemma np_max_ints:
  "ns \<noteq> [] \<Longrightarrow> np_max (map (\<lambda>n. Fin (of_int n)) ns) = Fin (of_int (Max (set ns)))"
proof -
  assume "ns \<noteq> []"
  then obtain a xs where ns: "ns = a # xs" by (cases ns) auto
  have nonan: "NaN \<notin> set (map (\<lambda>n. Fin (of_int n)) (a # xs))" by auto
  show ?thesis
    unfolding ns np_max_def using nonan
    by (simp only: list.map if_False list.sel fold_max_sizes)
qed

lemma size_extremes:
  assumes "extract_aggregated_features stats = Inr F" and "stats \<noteq> []"
  shows "feat_min_size F = np_min (map (\<lambda>s. to_dbl (of_int (ival (size_v s)))) stats)"
    and "feat_max_size F = np_max (map (\<lambda>s. to_dbl (of_int (ival (size_v s)))) stats)"
proof -
  from assms(1) obtain sizes where sz: "size_array stats = Inr sizes"
    by (auto simp: extract_aggregated_features_def and_then_Inr)
  note eq = size_array_Inr [OF sz]
  from assms(2) eq have ne: "sizes \<noteq> []" by simp
  from assms(1) sz ne show "feat_min_size F = np_min (map (\<lambda>s. to_dbl (of_int (ival (size_v s)))) stats)"
    by (auto simp: extract_aggregated_features_def and_then_def Let_def eq [symmetric])
  from assms(1) sz ne show "feat_max_size F = np_max (map (\<lambda>s. to_dbl (of_int (ival (size_v s)))) stats)"
    by (auto simp: extract_aggregated_features_def and_then_def Let_def eq [symmetric])
qed

lemma size_extremes_small:
  assumes "extract_aggregated_features stats = Inr F" and "stats \<noteq> []"
    and "\<forall>s \<in> set stats. \<bar>ival (size_v s)\<bar> \<le> 9007199254740992"
  shows "feat_min_size F = Fin (of_int (Min ((\<lambda>s. ival (size_v s)) ` set stats)))"
    and "feat_max_size F = Fin (of_int (Max ((\<lambda>s. ival (size_v s)) ` set stats)))"
proof -
  have m: "map (\<lambda>s. to_dbl (of_int (ival (size_v s)))) stats
             = map (\<lambda>n. Fin (of_int n)) (map (\<lambda>s. ival (size_v s)) stats)"
    using assms(3) by (simp add: to_dbl_int)
  from assms(2) have ne: "map (\<lambda>s. ival (size_v s)) stats \<noteq> []" by simp
  show "feat_min_size F = Fin (of_int (Min ((\<lambda>s. ival (size_v s)) ` set stats)))"
    using size_extremes(1) [OF assms(1,2)] np_min_ints [OF ne] by (simp add: m)
  show "feat_max_size F = Fin (of_int (Max ((\<lambda>s. ival (size_v s)) ` set stats)))"
    using size_extremes(2) [OF assms(1,2)] np_max_ints [OF ne] by (simp add: m)
qed

text \<open>
  Claim C4 as stated fails: the observed extremes are taken from the sizes converted to
  double precision (line 349), so two different sizes can have equal observed extremes.
  With the rows \<^verbatim>\<open>data 0 int\<close> and \<^verbatim>\<open>pad 9007199254740993 int\<close>, a packet without
  payload gives \<^verbatim>\<open>data\<close> the size \<open>- 9007199254740993\<close> and a packet of one byte the
  size \<open>- 9007199254740992\<close>; both become the double \<open>- 2\<^sup>5\<^sup>3\<close>. The field has no size
  field, its least and greatest size differ, the model predicts class 1, and the flag
  is false.
\<close>

theorem C4_counterexample:
  "load_protocol_definitions [''2'', ''data 0 int'', ''pad 9007199254740993 int''] Map.empty
     = Inr ex_neg_schema
   \<and> map_sum id hd (decode_packet ex_neg_schema []) = Inr (ex_neg_stats ! 0)
   \<and> map_sum id hd (decode_packet ex_neg_schema [7]) = Inr (ex_neg_stats ! 1)
   \<and> \<not> has_size_field ex_neg_schema ''data''
   \<and> map (\<lambda>s. ival (size_v s)) ex_neg_stats = [- 9007199254740993, - 9007199254740992]
   \<and> p_is_dynamic_class ex_preds = 1
   \<and> map_sum id is_dynamic_array (synth_field ex_neg_schema ''data'' ex_neg_stats ex_neg_stats ex_preds)
       = Inr False"
  by code_simp

text \<open>
  Claim C4, amended. In every synthesized descriptor, \<^verbatim>\<open>is_dynamic_array\<close> is true when the
  schema's size-field lookup for the field name is not blank; otherwise it is false when
  the segment's observed minimum and maximum size are equal; otherwise it is the model's
  predicted class. The observed extremes are the least and the greatest of the doubles
  nearest to the sizes; when no size exceeds \<open>2\<^sup>5\<^sup>3\<close> in magnitude they are equal exactly
  when the least and the greatest size are.
\<close>

theorem C4_is_dynamic:
  assumes "synth_field protocol_df fname stats alt_stats p = Inr d"
  shows "\<exists>F. extract_aggregated_features alt_stats = Inr F
           \<and> is_dynamic_array d =
               (if has_size_field protocol_df fname then True
                else if deq (feat_min_size F) (feat_max_size F) then False
                else p_is_dynamic_class p \<noteq> 0)
           \<and> has_size_field protocol_df fname
               = (\<exists>sf. protocol_mapping protocol_df fname = Some sf \<and> py_strip sf \<noteq> [])
           \<and> (alt_stats \<noteq> [] \<longrightarrow>
                feat_min_size F = np_min (map (\<lambda>s. to_dbl (of_int (ival (size_v s)))) alt_stats)
              \<and> feat_max_size F = np_max (map (\<lambda>s. to_dbl (of_int (ival (size_v s)))) alt_stats))
           \<and> (alt_stats \<noteq> [] \<and> (\<forall>s \<in> set alt_stats. \<bar>ival (size_v s)\<bar> \<le> 9007199254740992) \<longrightarrow>
                deq (feat_min_size F) (feat_max_size F)
                = (Min ((\<lambda>s. ival (size_v s)) ` set alt_stats) = Max ((\<lambda>s. ival (size_v s)) ` set alt_stats)))"
proof -
  from synth_field_frame(1) [OF assms] obtain F where
    F: "extract_aggregated_features alt_stats = Inr F"
    and dyn: "is_dynamic_array d = is_dynamic_rule protocol_df fname F p"
    by blast
  have a: "is_dynamic_array d =
               (if has_size_field protocol_df fname then True
                else if deq (feat_min_size F) (feat_max_size F) then False
                else p_is_dynamic_class p \<noteq> 0)"
    using dyn by (simp add: is_dynamic_rule_def)
  have b: "has_size_field protocol_df fname
               = (\<exists>sf. protocol_mapping protocol_df fname = Some sf \<and> py_strip sf \<noteq> [])"
    by (auto simp: has_size_field_def split: option.splits)
  have c: "alt_stats \<noteq> [] \<longrightarrow>
                feat_min_size F = np_min (map (\<lambda>s. to_dbl (of_int (ival (size_v s)))) alt_stats)
              \<and> feat_max_size F = np_max (map (\<lambda>s. to_dbl (of_int (ival (size_v s)))) alt_stats)"
    using size_extremes [OF F] by blast
  have e: "alt_stats \<noteq> [] \<and> (\<forall>s \<in> set alt_stats. \<bar>ival (size_v s)\<bar> \<le> 9007199254740992) \<longrightarrow>
                deq (feat_min_size F) (feat_max_size F)
                = (Min ((\<lambda>s. ival (size_v s)) ` set alt_stats) = Max ((\<lambda>s. ival (size_v s)) ` set alt_stats))"
    using size_extremes_small [OF F] by (simp add: deq_def)
  from F a b c e show ?thesis by blast
qed

theorem C4_is_dynamic_witness:
  "map_sum id is_dynamic_array
     (synth_field ex_text_schema ''name'' ex_name_stats ex_name_stats (ex_preds\<lparr>p_is_dynamic_class := 0\<rparr>))
     = Inr True
   \<and> map_sum id is_dynamic_array (synth_field ex_text_schema ''id'' ex_id_stats ex_id_stats ex_preds)
     = Inr False
   \<and> map_sum id is_dynamic_array (synth_field ex_text_schema ''tail'' ex_tail_stats ex_tail_stats ex_preds)
     = Inr True"
proof -
  have "\<not> isl (synth_field ex_text_schema ''name'' ex_name_stats ex_name_stats (ex_preds\<lparr>p_is_dynamic_class := 0\<rparr>))"
    by code_simp
  then obtain d1 where
    d1: "synth_field ex_text_schema ''name'' ex_name_stats ex_name_stats (ex_preds\<lparr>p_is_dynamic_class := 0\<rparr>) = Inr d1"
    by (cases "synth_field ex_text_schema ''name'' ex_name_stats ex_name_stats (ex_preds\<lparr>p_is_dynamic_class := 0\<rparr>)") auto
  have "has_size_field ex_text_schema ''name''" by code_simp
  with C4_is_dynamic [OF d1] have a: "is_dynamic_array d1 = True" by auto
  have "\<not> isl (synth_field ex_text_schema ''id'' ex_id_stats ex_id_stats ex_preds)"
    by code_simp
  then obtain d2 where d2: "synth_field ex_text_schema ''id'' ex_id_stats ex_id_stats ex_preds = Inr d2"
    by (cases "synth_field ex_text_schema ''id'' ex_id_stats ex_id_stats ex_preds") auto
  from C4_is_dynamic [OF d2] obtain F2 where
    F2: "extract_aggregated_features ex_id_stats = Inr F2"
    and r2: "is_dynamic_array d2 =
               (if has_size_field ex_text_schema ''id'' then True
                else if deq (feat_min_size F2) (feat_max_size F2) then False
                else p_is_dynamic_class ex_preds \<noteq> 0)"
    by blast
  have "\<not> has_size_field ex_text_schema ''id''
      \<and> map_sum id (\<lambda>F. deq (feat_min_size F) (feat_max_size F)) (extract_aggregated_features ex_id_stats)
          = Inr True"
    by code_simp
  with r2 F2 have b: "is_dynamic_array d2 = False" by simp
  have "\<not> isl (synth_field ex_text_schema ''tail'' ex_tail_stats ex_tail_stats ex_preds)"
    by code_simp
  then obtain d3 where d3: "synth_field ex_text_schema ''tail'' ex_tail_stats ex_tail_stats ex_preds = Inr d3"
    by (cases "synth_field ex_text_schema ''tail'' ex_tail_stats ex_tail_stats ex_preds") auto
  from C4_is_dynamic [OF d3] obtain F3 where
    F3: "extract_aggregated_features ex_tail_stats = Inr F3"
    and r3: "is_dynamic_array d3 =
               (if has_size_field ex_text_schema ''tail'' then True
                else if deq (feat_min_size F3) (feat_max_size F3) then False
                else p_is_dynamic_class ex_preds \<noteq> 0)"
    by blast
  have "\<not> has_size_field ex_text_schema ''tail''
      \<and> map_sum id (\<lambda>F. deq (feat_min_size F) (feat_max_size F)) (extract_aggregated_features ex_tail_stats)
          = Inr False
      \<and> p_is_dynamic_class ex_preds \<noteq> 0"
    by code_simp
  with r3 F3 have c: "is_dynamic_array d3 = True" by simp
  from a b c d1 d2 d3 show ?thesis by simp
qed

text \<open>
  Claim C5 as stated fails: the mode is taken over every occurrence of the field at the
  endpoint (\<^verbatim>\<open>stats\<close>), not over the occurrences of the segment (\<^verbatim>\<open>alt_stats\<close>). The
  schema compiler accepts rows that share a name; with two one-byte \<^verbatim>\<open>char\<close> rows, one
  one-byte \<^verbatim>\<open>raw\<close> row and two five-byte \<^verbatim>\<open>raw\<close> rows under one name, the segment of
  the one-byte occurrences has mode \<^verbatim>\<open>char\<close>, and its descriptor gets the type \<^verbatim>\<open>raw\<close>.
\<close>

theorem C5_counterexample:
  "load_protocol_definitions [''5'', ''x 1 char'', ''x 1 char'', ''x 1 raw'', ''x 5 raw'', ''x 5 raw'']
       Map.empty = Inr ex_dup_schema
   \<and> decode_packet ex_dup_schema ex_dup_payload = Inr ex_dup_recs
   \<and> segment_stats ex_dup_recs = Inr [(''60%'', [0, 1, 2]), (''100%'', [0, 1, 2, 3, 4])]
   \<and> pick ex_dup_recs [0, 1, 2] = Inr ex_dup_alt
   \<and> mode0 (map field_type ex_dup_alt) = ''char''
   \<and> map_sum id dpi_field_type (synth_field ex_dup_schema ''x'' ex_dup_recs ex_dup_alt ex_preds)
       = Inr ''raw''"
  by code_simp

text \<open>
  Claim C5, amended. The final field type is the statistical mode (of several most
  frequent types, the least) of the declared types of all occurrences of the field at the
  endpoint, whenever that mode is not \<^verbatim>\<open>bitfield\<close>, and the model's prediction exactly
  when it is; when all occurrences of the field have one declared type, that mode is also
  the mode over the occurrences of any segment.
\<close>

theorem C5_field_type:
  assumes "synth_field protocol_df fname stats alt_stats p = Inr d"
  shows "dpi_field_type d =
           (if aggregated_field_type stats \<noteq> ''bitfield'' then aggregated_field_type stats
            else p_field_type p)
       \<and> (stats \<noteq> [] \<longrightarrow> aggregated_field_type stats = mode0 (map field_type stats))
       \<and> ((\<forall>s \<in> set stats. field_type s = t) \<and> alt_stats \<noteq> [] \<and> set alt_stats \<subseteq> set stats
            \<longrightarrow> mode0 (map field_type alt_stats) = aggregated_field_type stats)"
proof (intro conjI impI)
  show "dpi_field_type d =
           (if aggregated_field_type stats \<noteq> ''bitfield'' then aggregated_field_type stats
            else p_field_type p)"
    by (rule synth_field_frame(2) [OF assms])
next
  assume "stats \<noteq> []"
  then show "aggregated_field_type stats = mode0 (map field_type stats)"
    by (simp add: aggregated_field_type_def)
next
  assume h: "(\<forall>s \<in> set stats. field_type s = t) \<and> alt_stats \<noteq> [] \<and> set alt_stats \<subseteq> set stats"
  then have ne: "stats \<noteq> []" by auto
  from h have "mode0 (map field_type alt_stats) = t"
    by (intro mode0_const) auto
  moreover from h ne have "mode0 (map field_type stats) = t"
    by (intro mode0_const) auto
  ultimately show "mode0 (map field_type alt_stats) = aggregated_field_type stats"
    using ne by (simp add: aggregated_field_type_def)
qed

theorem C5_field_type_witness:
  "map_sum id dpi_field_type (synth_field ex_text_schema ''id'' ex_id_stats ex_id_stats ex_preds)
     = Inr ''int''
   \<and> mode0 (map field_type ex_id_stats) = ''int''
   \<and> map_sum id dpi_field_type (synth_field ex_flag_schema ''fl'' ex_flag_stats ex_flag_stats ex_preds)
     = Inr (p_field_type ex_preds)"
proof -
  have "\<not> isl (synth_field ex_text_schema ''id'' ex_id_stats ex_id_stats ex_preds)"
    by code_simp
  then obtain d1 where d1: "synth_field ex_text_schema ''id'' ex_id_stats ex_id_stats ex_preds = Inr d1"
    by (cases "synth_field ex_text_schema ''id'' ex_id_stats ex_id_stats ex_preds") auto
  have shape: "(\<forall>s \<in> set ex_id_stats. field_type s = ''int'') \<and> ex_id_stats \<noteq> []
      \<and> set ex_id_stats \<subseteq> set ex_id_stats"
    by (simp add: ex_id_stats_def ex_rec_def)
  have agg: "aggregated_field_type ex_id_stats = ''int''" by code_simp
  note c = C5_field_type [OF d1, of "''int''"]
  from c [THEN conjunct1] agg have a: "dpi_field_type d1 = ''int''" by simp
  from c [THEN conjunct2, THEN conjunct2, THEN mp, OF shape] agg
  have b: "mode0 (map field_type ex_id_stats) = ''int''" by simp
  have "\<not> isl (synth_field ex_flag_schema ''fl'' ex_flag_stats ex_flag_stats ex_preds)"
    by code_simp
  then obtain d2 where d2: "synth_field ex_flag_schema ''fl'' ex_flag_stats ex_flag_stats ex_preds = Inr d2"
    by (cases "synth_field ex_flag_schema ''fl'' ex_flag_stats ex_flag_stats ex_preds") auto
  have agg2: "aggregated_field_type ex_flag_stats = ''bitfield''" by code_simp
  from C5_field_type [OF d2, of "''bitfield''", THEN conjunct1] agg2
  have e: "dpi_field_type d2 = p_field_type ex_preds"
    by simp
  from a b e d1 d2 show ?thesis by simp
qed











subsection \<open>Segmentation\<close>

lemma those_map_Some: "those (map f xs) = Some vs \<longleftrightarrow> map f xs = map Some vs"
  by (induction xs arbitrary: vs) (auto split: option.splits)

text \<open>
  Claim C6 as stated fails: a field of a numeric declared type whose values are not all
  zero is still clustered on the byte sizes as soon as \<^verbatim>\<open>float()\<close> raises on one of the
  values, since the \<^verbatim>\<open>except\<close> branch of line 410 takes the sizes. An \<^verbatim>\<open>int\<close> field of
  129 bytes can hold \<open>2\<^sup>1\<^sup>0\<^sup>2\<^sup>4\<close>, which \<^verbatim>\<open>float()\<close> rejects with OverflowError; a
  \<^verbatim>\<open>long\<close> field is decoded as hexadecimal text, which \<^verbatim>\<open>float()\<close> rejects as soon as it
  holds a letter. In both cases the occurrences differ in value, have equal sizes, and
  segmentation sees one cluster.
\<close>

theorem C6_counterexample:
  "decode_packet [ex_huge_row] ex_huge_payload = Inr [ex_huge_stats ! 0]
   \<and> decode_packet [ex_huge_row] (replicate 128 0 @ [5]) = Inr [ex_huge_stats ! 1]
   \<and> py_lower (field_type (hd ex_huge_stats)) \<in> set numeric_types
   \<and> map value_v ex_huge_stats = [Sc (VInt (2 ^ 1024)), Sc (VInt 5)]
   \<and> cluster_axis ex_huge_stats = [Fin 129, Fin 129]
   \<and> segment_stats ex_huge_stats = Inr [(''100%'', [0, 1])]
   \<and> py_lower (field_type (hd ex_long_stats)) \<in> set numeric_types
   \<and> map value_v ex_long_stats = [Sc (VStr (ustr_of ''00ff'')), Sc (VStr (ustr_of ''0012''))]
   \<and> cluster_axis ex_long_stats = [Fin 2, Fin 2]"
  by code_simp

text \<open>
  Claim C6, amended. For a non-empty occurrence list, segmentation clusters on the values,
  converted by \<^verbatim>\<open>float()\<close>, exactly when the declared type of the first occurrence is one
  of \<^verbatim>\<open>int\<close>, \<^verbatim>\<open>float\<close>, \<^verbatim>\<open>double\<close>, \<^verbatim>\<open>long\<close>, \<^verbatim>\<open>float()\<close> converts the value of
  every occurrence, and the converted values are not all zero; in every other case it
  clusters on the byte sizes.
\<close>

theorem C6_cluster_axis:
  "(stats \<noteq> [] \<longrightarrow> segment_stats stats = segment_values (cluster_axis stats))
   \<and> (py_lower (field_type (hd stats)) \<in> set numeric_types
        \<and> map (\<lambda>s. py_float (value_v s)) stats = map Some vs \<and> \<not> list_all deq0 vs
      \<longrightarrow> cluster_axis stats = vs)
   \<and> (\<not> (py_lower (field_type (hd stats)) \<in> set numeric_types
          \<and> (\<exists>ws. map (\<lambda>s. py_float (value_v s)) stats = map Some ws \<and> \<not> list_all deq0 ws))
      \<longrightarrow> cluster_axis stats = map (\<lambda>s. Fin (of_int (ival (size_v s)))) stats)"
proof (intro conjI impI)
  assume "stats \<noteq> []"
  then show "segment_stats stats = segment_values (cluster_axis stats)"
    by (simp add: segment_stats_def)
next
  assume "py_lower (field_type (hd stats)) \<in> set numeric_types
        \<and> map (\<lambda>s. py_float (value_v s)) stats = map Some vs \<and> \<not> list_all deq0 vs"
  moreover from this have "those (map (\<lambda>s. py_float (value_v s)) stats) = Some vs"
    by (simp add: those_map_Some)
  ultimately show "cluster_axis stats = vs"
    by (simp add: cluster_axis_def Let_def)
next
  assume h: "\<not> (py_lower (field_type (hd stats)) \<in> set numeric_types
          \<and> (\<exists>ws. map (\<lambda>s. py_float (value_v s)) stats = map Some ws \<and> \<not> list_all deq0 ws))"
  show "cluster_axis stats = map (\<lambda>s. Fin (of_int (ival (size_v s)))) stats"
  proof (cases "those (map (\<lambda>s. py_float (value_v s)) stats)")
    case None
    then show ?thesis by (simp add: cluster_axis_def Let_def size_axis_def)
  next
    case (Some ws)
    then have "map (\<lambda>s. py_float (value_v s)) stats = map Some ws"
      by (simp add: those_map_Some)
    with h have "py_lower (field_type (hd stats)) \<notin> set numeric_types \<or> list_all deq0 ws"
      by blast
    with Some show ?thesis by (auto simp: cluster_axis_def Let_def size_axis_def)
  qed
qed

theorem C6_cluster_axis_witness:
  "cluster_axis ex_id_stats = [Fin 7, Fin 9]
   \<and> cluster_axis ex_zero_stats = [Fin 2, Fin 4]
   \<and> cluster_axis ex_long_stats = [Fin 2, Fin 2]
   \<and> cluster_axis ex_name_stats = [Fin 2, Fin 3]
   \<and> segment_stats ex_id_stats = segment_values [Fin 7, Fin 9]"
proof -
  have n1: "py_lower (field_type (hd ex_id_stats)) \<in> set numeric_types
      \<and> map (\<lambda>s. py_float (value_v s)) ex_id_stats = map Some [Fin 7, Fin 9]
      \<and> \<not> list_all deq0 [Fin 7, Fin 9]"
    by code_simp
  from C6_cluster_axis [of ex_id_stats "[Fin 7, Fin 9]"] n1
  have a: "cluster_axis ex_id_stats = [Fin 7, Fin 9]" by blast
  have "ex_id_stats \<noteq> []" by (simp add: ex_id_stats_def)
  with C6_cluster_axis [of ex_id_stats "[Fin 7, Fin 9]"] a
  have e: "segment_stats ex_id_stats = segment_values [Fin 7, Fin 9]" by simp
  have z: "map (\<lambda>s. py_float (value_v s)) ex_zero_stats = map Some [Fin 0, Fin 0]" by code_simp
  have "\<not> (\<exists>ws. map (\<lambda>s. py_float (value_v s)) ex_zero_stats = map Some ws \<and> \<not> list_all deq0 ws)"
  proof
    assume "\<exists>ws. map (\<lambda>s. py_float (value_v s)) ex_zero_stats = map Some ws \<and> \<not> list_all deq0 ws"
    then obtain ws where eq: "map (\<lambda>s. py_float (value_v s)) ex_zero_stats = map Some ws"
      and nz: "\<not> list_all deq0 ws"
      by blast
    from eq z have "map Some ws = map Some [Fin 0, Fin 0]" by simp
    then have "ws = [Fin 0, Fin 0]" by (auto simp: map_eq_Cons_conv)
    with nz show False by (simp add: deq0_def)
  qed
  with C6_cluster_axis [of ex_zero_stats]
  have "cluster_axis ex_zero_stats = map (\<lambda>s. Fin (of_int (ival (size_v s)))) ex_zero_stats" by blast
  moreover have "map (\<lambda>s. Fin (of_int (ival (size_v s)))) ex_zero_stats = [Fin 2, Fin 4]" by code_simp
  ultimately have b: "cluster_axis ex_zero_stats = [Fin 2, Fin 4]" by simp
  have l: "those (map (\<lambda>s. py_float (value_v s)) ex_long_stats) = None" by code_simp
  have "\<not> (\<exists>ws. map (\<lambda>s. py_float (value_v s)) ex_long_stats = map Some ws \<and> \<not> list_all deq0 ws)"
    using l by (auto simp: those_map_Some [symmetric])
  with C6_cluster_axis [of ex_long_stats]
  have "cluster_axis ex_long_stats = map (\<lambda>s. Fin (of_int (ival (size_v s)))) ex_long_stats" by blast
  moreover have "map (\<lambda>s. Fin (of_int (ival (size_v s)))) ex_long_stats = [Fin 2, Fin 2]" by code_simp
  ultimately have c: "cluster_axis ex_long_stats = [Fin 2, Fin 2]" by simp
  have "py_lower (field_type (hd ex_name_stats)) \<notin> set numeric_types" by code_simp
  with C6_cluster_axis [of ex_name_stats]
  have "cluster_axis ex_name_stats = map (\<lambda>s. Fin (of_int (ival (size_v s)))) ex_name_stats" by blast
  moreover have "map (\<lambda>s. Fin (of_int (ival (size_v s)))) ex_name_stats = [Fin 2, Fin 3]" by code_simp
  ultimately have d: "cluster_axis ex_name_stats = [Fin 2, Fin 3]" by simp
  from a b c d e show ?thesis by simp
qed

end
